theory Spec2Isabelle
  imports Complex_Main "HOL-Library.Product_Lexorder"
begin

section \<open>Python values used by \<open>bag/layout/core.py\<close>\<close>

text \<open>
  Python integers are unbounded, so they are \<open>int\<close>; \<open>//\<close> is floor division, which
  is \<open>div\<close> on \<open>int\<close>, except that Python raises on a zero divisor.  Finite floats are
  idealised as exact \<open>real\<close> numbers, and the results of float arithmetic are taken to
  stay finite.  The exceptions that the modelled code can raise are values of \<open>error\<close>.
\<close>

datatype error = ValueError | ZeroDivisionError | TypeError | IndexError | OverflowError

text \<open>Python's one-argument \<open>round\<close>: to the nearest integer, ties to the even one.\<close>

definition py_round :: "real \<Rightarrow> int" where
  "py_round x =
     (let f = \<lfloor>x\<rfloor>; d = x - of_int f
      in if d < 1 / 2 then f
         else if 1 / 2 < d then f + 1
         else if even f then f else f + 1)"

text \<open>Indexing and item assignment on a two-element sequence (index 0 or 1).\<close>

fun tup_idx :: "int \<times> int \<Rightarrow> nat \<Rightarrow> int" where
  "tup_idx (a, b) i = (if i = 0 then a else b)"

fun tup_set :: "int \<times> int \<Rightarrow> nat \<Rightarrow> int \<Rightarrow> int \<times> int" where
  "tup_set (a, b) i v = (if i = 0 then (v, b) else (a, v))"

section \<open>The Design-Rule Provider\<close>

text \<open>
  The seven values that \<open>get_best_via_array\<close> unpacks from \<open>get_via_drc_info\<close>;
  an \<open>Optional\<close> value is an \<open>option\<close>, the callable \<open>arr_test\<close> a function.
\<close>

record drc_info =
  sp :: "int \<times> int"
  sp2_list :: "(int \<times> int) list option"
  sp3_list :: "(int \<times> int) list option"
  dim :: "int \<times> int"
  enc :: "(int \<times> int) list"
  arr_enc :: "(int \<times> int) list option"
  arr_test :: "(int \<Rightarrow> int \<Rightarrow> bool) option"

text \<open>
  A float that may be infinite: the provider's current limits are \<open>float('inf')\<close> in
  \<open>DummyTechInfo\<close>.  Comparisons with \<open>nan\<close> are false, as in Python.
\<close>

datatype pyfloat = Fin real | PInf | NInf | NaN

fun fl_lt :: "pyfloat \<Rightarrow> pyfloat \<Rightarrow> bool" where
  "fl_lt (Fin x) (Fin y) = (x < y)"
| "fl_lt (Fin x) PInf = True"
| "fl_lt NInf (Fin y) = True"
| "fl_lt NInf PInf = True"
| "fl_lt a b = False"

fun fl_times_int :: "pyfloat \<Rightarrow> int \<Rightarrow> pyfloat" where
  "fl_times_int (Fin x) n = Fin (x * of_int n)"
| "fl_times_int PInf n = (if n > 0 then PInf else if n < 0 then NInf else NaN)"
| "fl_times_int NInf n = (if n > 0 then NInf else if n < 0 then PInf else NaN)"
| "fl_times_int NaN n = NaN"

text \<open>
  The attributes and methods of \<open>TechInfo\<close> that the modelled functions use on
  \<open>self\<close>; the abstract ones are implemented by each process.  A rule lookup that
  raises returns \<open>Inl\<close> of the exception.  The optional keyword arguments of the
  current-limit queries are handed through unchanged, so they are part of the two
  \<open>em_specs\<close> functions here; \<open>get_res_em_specs\<close> takes the width and the length
  (\<open>-1\<close> when the caller leaves it out).  \<open>fix_string\<close> is \<open>bag.io.fix_string\<close>,
  which is not part of the modelled file.
\<close>

record TechInfo =
  resolution :: real
  layout_unit :: real
  get_via_types :: "string \<Rightarrow> string \<Rightarrow> (string \<times> int) list"
  get_via_drc_info :: "string \<Rightarrow> string \<Rightarrow> string \<Rightarrow> int \<Rightarrow> bool \<Rightarrow> error + drc_info"
  fix_string :: "string \<Rightarrow> string"
  get_layer_id :: "string \<Rightarrow> int"
  get_layer_type :: "string \<Rightarrow> string"
  get_via_name :: "int \<Rightarrow> string"
  get_via_em_specs :: "string \<Rightarrow> string \<Rightarrow> string \<Rightarrow> string \<Rightarrow> real \<times> real \<Rightarrow> real \<times> real \<Rightarrow>
    bool \<Rightarrow> pyfloat \<times> pyfloat \<times> pyfloat"
  get_res_rsquare :: "string \<Rightarrow> real"
  get_res_width_bounds :: "string \<Rightarrow> real \<times> real"
  get_res_length_bounds :: "string \<Rightarrow> real \<times> real"
  get_res_min_nsquare :: "string \<Rightarrow> real"
  get_res_em_specs :: "string \<Rightarrow> real \<Rightarrow> real \<Rightarrow> pyfloat \<times> pyfloat \<times> pyfloat"

text \<open>The body of \<open>TechInfo.get_via_types\<close>.\<close>

definition TechInfo_get_via_types :: "string \<Rightarrow> string \<Rightarrow> (string \<times> int) list" where
  "TechInfo_get_via_types bmtype tmtype = [(''square'', 1), (''vrect'', 2), (''hrect'', 2)]"

section \<open>The via array optimizer: \<open>get_best_via_array\<close>\<close>

text \<open>Lines 644-651: the metal width seen by each layer, \<open>(bb, be)\<close> or \<open>(tb, te)\<close>.\<close>

definition dir_dims :: "string \<Rightarrow> int \<Rightarrow> int \<Rightarrow> int \<times> int" where
  "dir_dims mdir w h = (if mdir = ''x'' then (h, w) else (w, h))"

text \<open>Lines 674-677: the defaults of the two richer spacing lists.\<close>

definition sp2_default :: "drc_info \<Rightarrow> (int \<times> int) list" where
  "sp2_default info = (case sp2_list info of None \<Rightarrow> [sp info] | Some l \<Rightarrow> l)"

definition sp3_default :: "drc_info \<Rightarrow> (int \<times> int) list" where
  "sp3_default info = (case sp3_list info of None \<Rightarrow> sp2_default info | Some l \<Rightarrow> l)"

text \<open>Lines 678-682: the elementwise minimum over the base rule and both lists.\<close>

fun sp_min_loop :: "int \<times> int \<Rightarrow> (int \<times> int) list \<Rightarrow> int \<times> int" where
  "sp_min_loop m [] = m"
| "sp_min_loop (spx_min, spy_min) ((high_spx, high_spy) # rest) =
     sp_min_loop (min spx_min high_spx, min spy_min high_spy) rest"

definition sp_min :: "drc_info \<Rightarrow> int \<times> int" where
  "sp_min info = sp_min_loop (sp_min_loop (sp info) (sp2_default info)) (sp3_default info)"

text \<open>Lines 684-685: the largest column and row counts; a zero divisor raises.\<close>

definition n_max :: "int \<Rightarrow> int \<Rightarrow> int \<Rightarrow> error + int" where
  "n_max w d s = (if d + s = 0 then Inl ZeroDivisionError else Inr ((w + s) div (d + s)))"

text \<open>
  Lines 690-691: all \<open>(a * b, a, b)\<close>, sorted in descending tuple order.  The triples
  are pairwise distinct, so \<open>sorted(..., reverse=True)\<close> is the reversed ascending sort.
\<close>

definition nxy_list :: "int \<Rightarrow> int \<Rightarrow> (int \<times> int \<times> int) list" where
  "nxy_list nx_max ny_max =
     rev (sort (concat (map (\<lambda>a. map (\<lambda>b. (a * b, a, b)) [1..ny_max]) [1..nx_max])))"

text \<open>Lines 700-705: the spacing pairs tried for one \<open>(nx, ny)\<close>.\<close>

definition sp_combo :: "drc_info \<Rightarrow> int \<Rightarrow> int \<Rightarrow> (int \<times> int) list" where
  "sp_combo info nx ny =
     (if nx = 2 \<and> ny = 2 then sp2_default info
      else if nx > 1 \<and> ny > 1 then sp3_default info
      else [sp info])"

text \<open>Lines 717-718: the enclosure list of one layer, with the array rule when it applies.\<close>

definition tot_enc :: "(int \<times> int) list \<Rightarrow> (int \<times> int) list option \<Rightarrow>
    (int \<Rightarrow> int \<Rightarrow> bool) option \<Rightarrow> int \<Rightarrow> int \<Rightarrow> error + (int \<times> int) list" where
  "tot_enc tot_enc_list arr_enc' arr_test' nx ny =
     (case arr_test' of
        None \<Rightarrow> Inr tot_enc_list
      | Some t \<Rightarrow>
          if t ny nx
          then (case arr_enc' of None \<Rightarrow> Inl TypeError | Some a \<Rightarrow> Inr (tot_enc_list @ a))
          else Inr tot_enc_list)"

text \<open>Lines 720-731: the index and the four sizes that the direction of a layer selects.\<close>

definition layer_axes :: "string \<Rightarrow> int \<Rightarrow> int \<Rightarrow> int \<Rightarrow> int \<Rightarrow> nat \<times> int \<times> int \<times> int \<times> int" where
  "layer_axes mdir w h w_arr h_arr =
     (if mdir = ''y'' then (0, w_arr, h_arr, w, h) else (1, h_arr, w_arr, h, w))"

text \<open>Lines 735-737: the test that one enclosure pair passes.\<close>

definition enc_pass :: "bool \<Rightarrow> nat \<Rightarrow> int \<Rightarrow> int \<Rightarrow> int \<Rightarrow> int \<Rightarrow> int \<times> int \<Rightarrow> bool" where
  "enc_pass ext enc_idx enc_dim ext_dim dim_lim max_ext_dim e =
     (let cur_ext_dim = ext_dim + 2 * tup_idx e (1 - enc_idx)
      in tup_idx e enc_idx * 2 + enc_dim \<le> dim_lim \<and> (ext \<or> cur_ext_dim \<le> max_ext_dim))"

text \<open>Lines 733-740: the smallest extension-direction metal size over the passing rules.\<close>

fun enc_loop :: "bool \<Rightarrow> nat \<Rightarrow> int \<Rightarrow> int \<Rightarrow> int \<Rightarrow> int \<Rightarrow> int option \<Rightarrow>
    (int \<times> int) list \<Rightarrow> int option" where
  "enc_loop ext enc_idx enc_dim ext_dim dim_lim max_ext_dim min_ext_dim [] = min_ext_dim"
| "enc_loop ext enc_idx enc_dim ext_dim dim_lim max_ext_dim min_ext_dim (e # rest) =
     (let cur_ext_dim = ext_dim + 2 * tup_idx e (1 - enc_idx)
      in if enc_pass ext enc_idx enc_dim ext_dim dim_lim max_ext_dim e
         then (case min_ext_dim of
                 None \<Rightarrow>
                   enc_loop ext enc_idx enc_dim ext_dim dim_lim max_ext_dim (Some cur_ext_dim) rest
               | Some m \<Rightarrow>
                   if m > cur_ext_dim
                   then enc_loop ext enc_idx enc_dim ext_dim dim_lim max_ext_dim
                          (Some cur_ext_dim) rest
                   else enc_loop ext enc_idx enc_dim ext_dim dim_lim max_ext_dim (Some m) rest)
         else enc_loop ext enc_idx enc_dim ext_dim dim_lim max_ext_dim min_ext_dim rest)"

text \<open>
  Lines 716-749, one pass of the loop over the two layers: \<open>Inr None\<close> is the
  \<open>break\<close>, \<open>Inr (Some mdim)\<close> the recorded metal dimension.
\<close>

definition check_layer :: "bool \<Rightarrow> int \<Rightarrow> int \<Rightarrow> int \<Rightarrow> int \<Rightarrow> int \<Rightarrow> int \<Rightarrow> string \<Rightarrow>
    (int \<times> int) list \<Rightarrow> (int \<times> int) list option \<Rightarrow> (int \<Rightarrow> int \<Rightarrow> bool) option \<Rightarrow>
    error + (int \<times> int) option" where
  "check_layer ext w h nx ny w_arr h_arr mdir tot_enc_list arr_enc' arr_test' =
     (case tot_enc tot_enc_list arr_enc' arr_test' nx ny of
        Inl e \<Rightarrow> Inl e
      | Inr tot \<Rightarrow>
          (case layer_axes mdir w h w_arr h_arr of
             (enc_idx, enc_dim, ext_dim, dim_lim, max_ext_dim) \<Rightarrow>
               (case enc_loop ext enc_idx enc_dim ext_dim dim_lim max_ext_dim None tot of
                  None \<Rightarrow> Inr None
                | Some m \<Rightarrow>
                    (let min_ext_dim = max m max_ext_dim
                     in Inr (Some (tup_set (min_ext_dim, min_ext_dim) enc_idx dim_lim))))))"

text \<open>
  Lines 713-751: bottom layer first, then the top layer; the top layer is not looked at
  when the bottom one fails.  \<open>Some [bottom, top]\<close> is the passing \<open>mdim_list\<close>.
\<close>

definition check_layers :: "bool \<Rightarrow> int \<Rightarrow> int \<Rightarrow> string \<Rightarrow> string \<Rightarrow> drc_info \<Rightarrow> drc_info \<Rightarrow>
    int \<Rightarrow> int \<Rightarrow> int \<Rightarrow> int \<Rightarrow> error + (int \<times> int) list option" where
  "check_layers ext w h bot_dir top_dir bot_info top_info nx ny w_arr h_arr =
     (case check_layer ext w h nx ny w_arr h_arr bot_dir (enc bot_info) (arr_enc bot_info)
             (arr_test bot_info) of
        Inl e \<Rightarrow> Inl e
      | Inr None \<Rightarrow> Inr None
      | Inr (Some mb) \<Rightarrow>
          (case check_layer ext w h nx ny w_arr h_arr top_dir (enc top_info) (arr_enc top_info)
                  (arr_test top_info) of
             Inl e \<Rightarrow> Inl e
           | Inr None \<Rightarrow> Inr None
           | Inr (Some mt) \<Rightarrow> Inr (Some [mb, mt])))"

text \<open>The four \<open>opt_\<close> variables of one via type.\<close>

record via_opt =
  opt_nxy :: "int \<times> int"
  opt_mdim_list :: "(int \<times> int) list"
  opt_adim :: "int \<times> int"
  opt_sp :: "int \<times> int"

text \<open>Lines 707-757: the loop over the spacing pairs of one \<open>(nx, ny)\<close>.\<close>

fun sp_loop :: "bool \<Rightarrow> int \<Rightarrow> int \<Rightarrow> string \<Rightarrow> string \<Rightarrow> drc_info \<Rightarrow> drc_info \<Rightarrow>
    int \<Rightarrow> int \<Rightarrow> (int \<times> int) list \<Rightarrow> error + via_opt option" where
  "sp_loop ext w h bot_dir top_dir bot_info top_info nx ny [] = Inr None"
| "sp_loop ext w h bot_dir top_dir bot_info top_info nx ny ((spx, spy) # rest) =
     (let w_arr = nx * (spx + fst (dim bot_info)) - spx;
          h_arr = ny * (spy + snd (dim bot_info)) - spy
      in case check_layers ext w h bot_dir top_dir bot_info top_info nx ny w_arr h_arr of
           Inl e \<Rightarrow> Inl e
         | Inr None \<Rightarrow> sp_loop ext w h bot_dir top_dir bot_info top_info nx ny rest
         | Inr (Some mdim_list) \<Rightarrow>
             Inr (Some \<lparr>opt_nxy = (nx, ny), opt_mdim_list = mdim_list,
                        opt_adim = (w_arr, h_arr), opt_sp = (spx, spy)\<rparr>))"

text \<open>Lines 698-760: the loop over the sorted \<open>(num, nx, ny)\<close>, left at the first success.\<close>

fun nxy_loop :: "bool \<Rightarrow> int \<Rightarrow> int \<Rightarrow> string \<Rightarrow> string \<Rightarrow> drc_info \<Rightarrow> drc_info \<Rightarrow>
    (int \<times> int \<times> int) list \<Rightarrow> error + via_opt option" where
  "nxy_loop ext w h bot_dir top_dir bot_info top_info [] = Inr None"
| "nxy_loop ext w h bot_dir top_dir bot_info top_info ((num, nx, ny) # rest) =
     (case sp_loop ext w h bot_dir top_dir bot_info top_info nx ny (sp_combo bot_info nx ny) of
        Inl e \<Rightarrow> Inl e
      | Inr None \<Rightarrow> nxy_loop ext w h bot_dir top_dir bot_info top_info rest
      | Inr (Some opt) \<Rightarrow> Inr (Some opt))"

text \<open>Lines 673-760: the optimum of one via type, from its two rule sets.\<close>

definition type_opt :: "bool \<Rightarrow> int \<Rightarrow> int \<Rightarrow> string \<Rightarrow> string \<Rightarrow> drc_info \<Rightarrow> drc_info \<Rightarrow>
    error + via_opt option" where
  "type_opt ext w h bot_dir top_dir bot_info top_info =
     (let (spx_min, spy_min) = sp_min bot_info
      in case n_max w (fst (dim bot_info)) spx_min of
           Inl e \<Rightarrow> Inl e
         | Inr nx_max \<Rightarrow>
             (case n_max h (snd (dim bot_info)) spy_min of
                Inl e \<Rightarrow> Inl e
              | Inr ny_max \<Rightarrow>
                  nxy_loop ext w h bot_dir top_dir bot_info top_info (nxy_list nx_max ny_max)))"

text \<open>
  Lines 778-789, \<open>_via_better\<close>: the areas are those of the code,
  \<open>int(round(m[0] / res)) * int(round(m[1] / res))\<close>; a zero resolution raises.
\<close>

definition via_area :: "real \<Rightarrow> int \<times> int \<Rightarrow> int" where
  "via_area res mdim = py_round (of_int (fst mdim) / res) * py_round (of_int (snd mdim) / res)"

fun via_better_loop :: "real \<Rightarrow> bool \<Rightarrow> ((int \<times> int) \<times> (int \<times> int)) list \<Rightarrow> error + bool" where
  "via_better_loop res better [] = Inr better"
| "via_better_loop res better ((mdim1, mdim2) # rest) =
     (if res = 0 then Inl ZeroDivisionError
      else let area1 = via_area res mdim1; area2 = via_area res mdim2
           in if area1 < area2 then via_better_loop res True rest
              else if area1 > area2 then Inr False
              else via_better_loop res better rest)"

definition via_better :: "real \<Rightarrow> (int \<times> int) list \<Rightarrow> (int \<times> int) list \<Rightarrow> error + bool" where
  "via_better res mdim_list1 mdim_list2 = via_better_loop res False (zip mdim_list1 mdim_list2)"

text \<open>The seven \<open>best_\<close> variables, once \<open>best_num\<close> is not \<open>None\<close>.\<close>

record via_best =
  best_num :: int
  best_nxy :: "int \<times> int"
  best_mdim_list :: "(int \<times> int) list"
  best_type :: string
  best_vdim :: "int \<times> int"
  best_sp :: "int \<times> int"
  best_adim :: "int \<times> int"

text \<open>Lines 764-765: whether the optimum of the current via type replaces the best one.\<close>

definition replaces :: "real \<Rightarrow> int \<Rightarrow> via_opt \<Rightarrow> via_best option \<Rightarrow> error + bool" where
  "replaces res opt_num opt best =
     (case best of
        None \<Rightarrow> Inr True
      | Some b \<Rightarrow>
          if opt_num > best_num b then Inr True
          else if opt_num = best_num b then via_better res (opt_mdim_list opt) (best_mdim_list b)
          else Inr False)"

text \<open>Line 763: the weighted via count of an optimum.\<close>

definition weighted_num :: "int \<Rightarrow> via_opt \<Rightarrow> int" where
  "weighted_num weight opt = weight * fst (opt_nxy opt) * snd (opt_nxy opt)"

text \<open>Lines 766-772: the \<open>best_\<close> variables after they are set from an optimum.\<close>

definition new_best :: "string \<Rightarrow> int \<Rightarrow> int \<times> int \<Rightarrow> via_opt \<Rightarrow> via_best" where
  "new_best vtype weight vdim opt =
     \<lparr>best_num = weighted_num weight opt, best_nxy = opt_nxy opt,
      best_mdim_list = opt_mdim_list opt, best_type = vtype, best_vdim = vdim,
      best_sp = opt_sp opt, best_adim = opt_adim opt\<rparr>"

text \<open>
  Lines 762-772: the update of the \<open>best_\<close> variables by the optimum \<open>opt\<close> of one
  via type (\<open>opt_nxy\<close> is not \<open>None\<close>).
\<close>

definition update_best :: "real \<Rightarrow> string \<Rightarrow> int \<Rightarrow> int \<times> int \<Rightarrow> via_opt \<Rightarrow>
    via_best option \<Rightarrow> error + via_best option" where
  "update_best res vtype weight vdim opt best =
     (case replaces res (weighted_num weight opt) opt best of
        Inl e \<Rightarrow> Inl e
      | Inr True \<Rightarrow> Inr (Some (new_best vtype weight vdim opt))
      | Inr False \<Rightarrow> Inr best)"

text \<open>
  Lines 662-671: the two rule lookups of one via type.  \<open>ValueError\<close> is caught and
  skips the type (\<open>Inr None\<close>); any other exception leaves the function.
\<close>

definition lookup_drc :: "TechInfo \<Rightarrow> string \<Rightarrow> string \<Rightarrow> string \<Rightarrow> string \<Rightarrow> int \<Rightarrow> int \<Rightarrow>
    error + (drc_info \<times> drc_info) option" where
  "lookup_drc tech vname vtype bmtype tmtype bb tb =
     (case get_via_drc_info tech vname vtype bmtype bb True of
        Inl e \<Rightarrow> (if e = ValueError then Inr None else Inl e)
      | Inr bot_info \<Rightarrow>
          (case get_via_drc_info tech vname vtype tmtype tb False of
             Inl e \<Rightarrow> (if e = ValueError then Inr None else Inl e)
           | Inr top_info \<Rightarrow> Inr (Some (bot_info, top_info))))"

text \<open>
  Lines 662-760, one via type up to its optimum: \<open>Inr None\<close> when the type is skipped
  or no configuration passes, else the via dimension \<open>dim\<close> and the optimum.
\<close>

definition type_candidate :: "TechInfo \<Rightarrow> string \<Rightarrow> string \<Rightarrow> string \<Rightarrow> string \<Rightarrow> string \<Rightarrow>
    int \<Rightarrow> int \<Rightarrow> bool \<Rightarrow> string \<Rightarrow> error + ((int \<times> int) \<times> via_opt) option" where
  "type_candidate tech vname bmtype tmtype bot_dir top_dir w h ext vtype =
     (case lookup_drc tech vname vtype bmtype tmtype (fst (dir_dims bot_dir w h))
             (fst (dir_dims top_dir w h)) of
        Inl e \<Rightarrow> Inl e
      | Inr None \<Rightarrow> Inr None
      | Inr (Some (bot_info, top_info)) \<Rightarrow>
          (case type_opt ext w h bot_dir top_dir bot_info top_info of
             Inl e \<Rightarrow> Inl e
           | Inr None \<Rightarrow> Inr None
           | Inr (Some opt) \<Rightarrow> Inr (Some (dim bot_info, opt))))"

text \<open>Lines 661-772: the loop over the via types.\<close>

fun type_loop :: "TechInfo \<Rightarrow> string \<Rightarrow> string \<Rightarrow> string \<Rightarrow> string \<Rightarrow> string \<Rightarrow> int \<Rightarrow> int \<Rightarrow>
    bool \<Rightarrow> via_best option \<Rightarrow> (string \<times> int) list \<Rightarrow> error + via_best option" where
  "type_loop tech vname bmtype tmtype bot_dir top_dir w h ext best [] = Inr best"
| "type_loop tech vname bmtype tmtype bot_dir top_dir w h ext best ((vtype, weight) # rest) =
     (case type_candidate tech vname bmtype tmtype bot_dir top_dir w h ext vtype of
        Inl e \<Rightarrow> Inl e
      | Inr None \<Rightarrow> type_loop tech vname bmtype tmtype bot_dir top_dir w h ext best rest
      | Inr (Some (vdim, opt)) \<Rightarrow>
          (case update_best (resolution tech) vtype weight vdim opt best of
             Inl e \<Rightarrow> Inl e
           | Inr best' \<Rightarrow>
               type_loop tech vname bmtype tmtype bot_dir top_dir w h ext best' rest))"

text \<open>The state of the \<open>best_\<close> variables when the loop over the via types is done.\<close>

definition best_via_search :: "TechInfo \<Rightarrow> string \<Rightarrow> string \<Rightarrow> string \<Rightarrow> string \<Rightarrow> string \<Rightarrow>
    int \<Rightarrow> int \<Rightarrow> bool \<Rightarrow> error + via_best option" where
  "best_via_search tech vname bmtype tmtype bot_dir top_dir w h ext =
     type_loop tech vname bmtype tmtype bot_dir top_dir w h ext None
       (get_via_types tech bmtype tmtype)"

type_synonym via_array =
  "(int \<times> int) \<times> (int \<times> int) list \<times> string \<times> (int \<times> int) \<times> (int \<times> int) \<times> (int \<times> int)"

text \<open>Lines 774-776: \<open>None\<close> when no via type passed, else the six-tuple.\<close>

definition get_best_via_array :: "TechInfo \<Rightarrow> string \<Rightarrow> string \<Rightarrow> string \<Rightarrow> string \<Rightarrow> string \<Rightarrow>
    int \<Rightarrow> int \<Rightarrow> bool \<Rightarrow> error + via_array option" where
  "get_best_via_array tech vname bmtype tmtype bot_dir top_dir w h ext =
     (case best_via_search tech vname bmtype tmtype bot_dir top_dir w h ext of
        Inl e \<Rightarrow> Inl e
      | Inr None \<Rightarrow> Inr None
      | Inr (Some b) \<Rightarrow>
          Inr (Some (best_nxy b, best_mdim_list b, best_type b, best_vdim b, best_sp b,
                     best_adim b)))"

section \<open>The via instance builder: \<open>get_via_info\<close>\<close>

text \<open>
  The class \<open>BBox\<close> is imported from another module.  Of the argument \<open>bbox\<close> the
  function reads four attributes; the two boxes it builds are the arguments of the
  constructor call \<open>BBox(left, bottom, right, top, res, unit_mode=True)\<close>.
\<close>

record bbox_arg =
  bbox_w :: int
  bbox_h :: int
  bbox_xc_unit :: int
  bbox_yc_unit :: int

record BBox =
  left_unit :: int
  bottom_unit :: int
  right_unit :: int
  top_unit :: int
  bbox_res :: real

text \<open>A layer argument is a name, or a tuple whose first component is the name.\<close>

datatype layer_arg = LayerName string | LayerTuple string string

fun layer_name :: "layer_arg \<Rightarrow> string" where
  "layer_name (LayerName n) = n"
| "layer_name (LayerTuple n p) = n"

text \<open>Line 809, \<open>get_via_id\<close>: the top layer name comes first.\<close>

definition get_via_id :: "string \<Rightarrow> string \<Rightarrow> string" where
  "get_via_id bot_layer top_layer = top_layer @ ''_'' @ bot_layer"

text \<open>The dictionary \<open>params\<close> and the returned dictionary.\<close>

record via_params =
  par_id :: string
  par_loc :: "int \<times> int"
  par_orient :: string
  num_rows :: int
  num_cols :: int
  sp_rows :: int
  sp_cols :: int
  enc1 :: "int list"
  enc2 :: "int list"
  cut_width :: int
  cut_height :: int

record via_info =
  via_resistance :: real
  via_idc :: pyfloat
  via_iac_rms :: pyfloat
  via_iac_peak :: pyfloat
  via_params :: via_params
  via_top_box :: BBox
  via_bot_box :: BBox

text \<open>Lines 875-876: \<open>not top_dir\<close> holds for \<open>None\<close> and for the empty string.\<close>

definition default_top_dir :: "string \<Rightarrow> string option \<Rightarrow> string" where
  "default_top_dir bot_dir top_dir =
     (case top_dir of
        None \<Rightarrow> (if bot_dir = ''y'' then ''x'' else ''y'')
      | Some d \<Rightarrow> (if d = [] then (if bot_dir = ''y'' then ''x'' else ''y'') else d))"

text \<open>Lines 884-944: the dictionary built from a result of the optimizer.\<close>

definition build_via_info :: "TechInfo \<Rightarrow> bbox_arg \<Rightarrow> string \<Rightarrow> string \<Rightarrow> string \<Rightarrow> string \<Rightarrow>
    real \<Rightarrow> real \<Rightarrow> via_array \<Rightarrow> error + via_info" where
  "build_via_info tech bbox vname bot_layer top_layer bot_dir bot_len top_len via_result =
     (case via_result of
        ((nx, ny), mdim_list, vtype, vdim, (spx, spy), (warr_norm, harr_norm)) \<Rightarrow>
          (case mdim_list of
             (wbot_norm, hbot_norm) # (wtop_norm, htop_norm) # others \<Rightarrow>
               (let res = resolution tech;
                    xc_norm = bbox_xc_unit bbox;
                    yc_norm = bbox_yc_unit bbox;
                    enc1_x = (wbot_norm - warr_norm) div 2;
                    enc1_y = (hbot_norm - harr_norm) div 2;
                    enc2_x = (wtop_norm - warr_norm) div 2;
                    enc2_y = (htop_norm - harr_norm) div 2;
                    (bw, tw) = (if bot_dir = ''x''
                                then (of_int hbot_norm * res, of_int wtop_norm * res)
                                else (of_int wbot_norm * res, of_int htop_norm * res));
                    bot_xl_norm = xc_norm - wbot_norm div 2;
                    bot_yb_norm = yc_norm - hbot_norm div 2;
                    top_xl_norm = xc_norm - wtop_norm div 2;
                    top_yb_norm = yc_norm - htop_norm div 2;
                    bot_box = \<lparr>left_unit = bot_xl_norm, bottom_unit = bot_yb_norm,
                               right_unit = bot_xl_norm + wbot_norm,
                               top_unit = bot_yb_norm + hbot_norm, bbox_res = res\<rparr>;
                    top_box = \<lparr>left_unit = top_xl_norm, bottom_unit = top_yb_norm,
                               right_unit = top_xl_norm + wtop_norm,
                               top_unit = top_yb_norm + htop_norm, bbox_res = res\<rparr>;
                    (idc, irms, ipeak) =
                       get_via_em_specs tech vname bot_layer top_layer vtype (bw, bot_len)
                         (tw, top_len) (nx > 1 \<or> ny > 1);
                    params = \<lparr>par_id = get_via_id bot_layer top_layer,
                              par_loc = (xc_norm, yc_norm), par_orient = ''R0'',
                              num_rows = ny, num_cols = nx, sp_rows = spy, sp_cols = spx,
                              enc1 = [enc1_x, enc1_x, enc1_y, enc1_y],
                              enc2 = [enc2_x, enc2_x, enc2_y, enc2_y],
                              cut_width = fst vdim, cut_height = snd vdim\<rparr>;
                    ntot = nx * ny
                in Inr \<lparr>via_resistance = 0, via_idc = fl_times_int idc ntot,
                        via_iac_rms = fl_times_int irms ntot,
                        via_iac_peak = fl_times_int ipeak ntot, via_params = params,
                        via_top_box = top_box, via_bot_box = bot_box\<rparr>)
           | short \<Rightarrow> Inl IndexError))"

text \<open>Lines 862-882 and the call of the part above; \<open>Inr None\<close> is the returned \<open>None\<close>.\<close>

definition get_via_info :: "TechInfo \<Rightarrow> bbox_arg \<Rightarrow> layer_arg \<Rightarrow> layer_arg \<Rightarrow> string \<Rightarrow> real \<Rightarrow>
    real \<Rightarrow> bool \<Rightarrow> string option \<Rightarrow> error + via_info option" where
  "get_via_info tech bbox bot_layer_arg top_layer_arg bot_dir bot_len top_len ext top_dir_arg =
     (let bot_layer = fix_string tech (layer_name bot_layer_arg);
          top_layer = fix_string tech (layer_name top_layer_arg);
          bot_id = get_layer_id tech bot_layer;
          bmtype = get_layer_type tech bot_layer;
          tmtype = get_layer_type tech top_layer;
          vname = get_via_name tech bot_id;
          top_dir = default_top_dir bot_dir top_dir_arg
      in case get_best_via_array tech vname bmtype tmtype bot_dir top_dir (bbox_w bbox)
                (bbox_h bbox) ext of
           Inl e \<Rightarrow> Inl e
         | Inr None \<Rightarrow> Inr None
         | Inr (Some via_result) \<Rightarrow>
             (case build_via_info tech bbox vname bot_layer top_layer bot_dir bot_len top_len
                     via_result of
                Inl e \<Rightarrow> Inl e
              | Inr info \<Rightarrow> Inr (Some info)))"

section \<open>The binary search helper\<close>

text \<open>
  Modelled from the spec: the class \<open>BinaryIterator\<close> of \<open>bag.util.search\<close>, which
  \<open>design_resistor\<close> imports and which is not among the source files.  The spec
  (sections 2, 4.3 and 9) describes a search over the values \<open>low + N * step\<close>, with an
  exclusive upper bound or none (\<open>None\<close>: unbounded above), that is moved up after an
  infeasible probe and down after a feasible one and that retains the last solution
  saved.  It first probes \<open>low\<close>; the index is doubled while there is no upper bound
  and bisected once there is one.
\<close>

record 'a BinaryIterator =
  it_offset :: int
  it_step :: int
  it_low :: int
  it_high :: "int option"
  it_current :: int
  it_save_info :: "'a option"

definition BinaryIterator :: "int \<Rightarrow> int option \<Rightarrow> int \<Rightarrow> 'a BinaryIterator" where
  "BinaryIterator low high step =
     (case high of
        None \<Rightarrow>
          \<lparr>it_offset = low, it_step = step, it_low = 0, it_high = None, it_current = 0,
           it_save_info = None\<rparr>
      | Some hi \<Rightarrow>
          (let nmax0 = (hi - low) div step;
               nmax = (if low + step * nmax0 < hi then nmax0 + 1 else nmax0)
           in \<lparr>it_offset = low, it_step = step, it_low = 0, it_high = Some nmax,
               it_current = (0 + nmax) div 2, it_save_info = None\<rparr>))"

definition has_next :: "'a BinaryIterator \<Rightarrow> bool" where
  "has_next it = (case it_high it of None \<Rightarrow> True | Some hi \<Rightarrow> it_low it < hi)"

definition get_next :: "'a BinaryIterator \<Rightarrow> int" where
  "get_next it = it_current it * it_step it + it_offset it"

definition up :: "'a BinaryIterator \<Rightarrow> 'a BinaryIterator" where
  "up it =
     (let low = it_current it + 1
      in case it_high it of
           Some hi \<Rightarrow> it\<lparr>it_low := low, it_current := (low + hi) div 2\<rparr>
         | None \<Rightarrow>
             it\<lparr>it_low := low,
                it_current := (if it_current it > 0 then it_current it * 2 else 1)\<rparr>)"

definition down :: "'a BinaryIterator \<Rightarrow> 'a BinaryIterator" where
  "down it =
     it\<lparr>it_high := Some (it_current it), it_current := (it_low it + it_current it) div 2\<rparr>"

definition save_info :: "'a BinaryIterator \<Rightarrow> 'a \<Rightarrow> 'a BinaryIterator" where
  "save_info it info = it\<lparr>it_save_info := Some info\<rparr>"

definition get_last_save_info :: "'a BinaryIterator \<Rightarrow> 'a option" where
  "get_last_save_info it = it_save_info it"

section \<open>The resistor sizer: \<open>design_resistor\<close>\<close>

text \<open>
  Lines 1006-1007 and 1021-1022: the test on the three current limits.  The limits
  come from the provider; the three specs are already divided by the parallel count.
\<close>

definition em_violated :: "pyfloat \<times> pyfloat \<times> pyfloat \<Rightarrow> real \<Rightarrow> real \<Rightarrow> real \<Rightarrow> bool" where
  "em_violated limits idc_par iac_rms_par iac_peak_par =
     (case limits of
        (res_idc, res_irms, res_ipeak) \<Rightarrow>
          (fl_lt (Fin 0) res_idc \<and> fl_lt res_idc (Fin idc_par)) \<or>
          (fl_lt (Fin 0) res_irms \<and> fl_lt res_irms (Fin iac_rms_par)) \<or>
          (fl_lt (Fin 0) res_ipeak \<and> fl_lt res_ipeak (Fin iac_peak_par)))"

text \<open>
  The values that stay fixed during the search: the arguments, and the provider's
  answers and unit bounds computed in lines 980-992.
\<close>

record res_search =
  rs_res_type :: string
  rs_res_targ :: real
  rs_idc :: real
  rs_iac_rms :: real
  rs_iac_peak :: real
  rs_rsq :: real
  rs_wmax :: real
  rs_min_nsq :: real
  rs_wmin_unit :: int
  rs_wmax_unit :: int
  rs_lmin_unit :: int

text \<open>Lines 1013-1026: one pass of the loop over the width.\<close>

definition w_step :: "TechInfo \<Rightarrow> res_search \<Rightarrow> int \<Rightarrow> (int \<times> int) BinaryIterator \<Rightarrow>
    error + (int \<times> int) BinaryIterator" where
  "w_step tech rs npar w_iter =
     (let wcur_unit = get_next w_iter;
          res_targ_par = rs_res_targ rs * of_int npar
      in if rs_rsq rs = 0 then Inl ZeroDivisionError
         else
           (let lcur_unit = \<lceil>res_targ_par / rs_rsq rs * of_int wcur_unit\<rceil>
            in if lcur_unit < max (rs_lmin_unit rs) \<lceil>rs_min_nsq rs * of_int wcur_unit\<rceil>
               then Inr (down w_iter)
               else if em_violated
                         (get_res_em_specs tech (rs_res_type rs)
                            (of_int wcur_unit * resolution tech)
                            (of_int lcur_unit * resolution tech))
                         (rs_idc rs / of_int npar) (rs_iac_rms rs / of_int npar)
                         (rs_iac_peak rs / of_int npar)
               then Inr (up w_iter)
               else Inr (down (save_info w_iter (wcur_unit, lcur_unit)))))"

text \<open>Lines 1012-1026: the loop over the width; \<open>None\<close> when it does not end.\<close>

partial_function (option) w_loop :: "TechInfo \<Rightarrow> res_search \<Rightarrow> int \<Rightarrow>
    (int \<times> int) BinaryIterator \<Rightarrow> (error + (int \<times> int) BinaryIterator) option" where
  "w_loop tech rs npar w_iter =
     (if has_next w_iter
      then (case w_step tech rs npar w_iter of
              Inl e \<Rightarrow> Some (Inl e)
            | Inr w_iter' \<Rightarrow> w_loop tech rs npar w_iter')
      else Some (Inr w_iter))"

declare w_loop.simps [code]

text \<open>
  Lines 1001-1035, what one parallel count that converts to a float gives (the
  conversion itself is in \<open>npar_probe\<close> below): \<open>Inr None\<close> when it is infeasible
  (the outer search moves up), \<open>Inr (Some w_info)\<close> with the saved width and length
  when it is feasible (the outer search saves and moves down).
\<close>

definition npar_try :: "TechInfo \<Rightarrow> res_search \<Rightarrow> int \<Rightarrow> (error + (int \<times> int) option) option" where
  "npar_try tech rs npar =
     (if npar = 0 then Some (Inl ZeroDivisionError)
      else if em_violated (get_res_em_specs tech (rs_res_type rs) (rs_wmax rs) (- 1))
                (rs_idc rs / of_int npar) (rs_iac_rms rs / of_int npar)
                (rs_iac_peak rs / of_int npar)
      then Some (Inr None)
      else (case w_loop tech rs npar
                   (BinaryIterator (rs_wmin_unit rs) (Some (rs_wmax_unit rs + 1)) 2) of
              None \<Rightarrow> None
            | Some (Inl e) \<Rightarrow> Some (Inl e)
            | Some (Inr w_iter) \<Rightarrow> Some (Inr (get_last_save_info w_iter))))"

text \<open>
  An \<open>int\<close> in arithmetic with a float is converted to a float first.  The conversion
  rounds to 53 bits and raises \<open>OverflowError\<close> when the rounded value is \<open>2 ^ 1024\<close>
  or more, that is from \<open>2 ^ 1024 - 2 ^ 970\<close> on.
\<close>

definition float_int_bound :: int where
  "float_int_bound = 2 ^ 1024 - 2 ^ 970"

definition float_of_int_ok :: "int \<Rightarrow> bool" where
  "float_of_int_ok n = (\<bar>n\<bar> < float_int_bound)"

text \<open>
  Lines 1000-1035, one pass of the loop over the parallel count: line 1001 multiplies
  the float \<open>res_targ\<close> by \<open>npar\<close>, which raises when \<open>npar\<close> does not convert;
  the rest of the pass is \<open>npar_try\<close>.
\<close>

definition npar_probe :: "TechInfo \<Rightarrow> res_search \<Rightarrow> int \<Rightarrow> (error + (int \<times> int) option) option" where
  "npar_probe tech rs npar =
     (if \<not> float_of_int_ok npar then Some (Inl OverflowError) else npar_try tech rs npar)"

text \<open>Lines 999-1035: the loop over the parallel count; \<open>None\<close> when it does not end.\<close>

partial_function (option) npar_loop :: "TechInfo \<Rightarrow> res_search \<Rightarrow>
    (int \<times> int \<times> int) BinaryIterator \<Rightarrow> (error + (int \<times> int \<times> int) BinaryIterator) option" where
  "npar_loop tech rs npar_iter =
     (if has_next npar_iter
      then (case npar_probe tech rs (get_next npar_iter) of
              None \<Rightarrow> None
            | Some (Inl e) \<Rightarrow> Some (Inl e)
            | Some (Inr None) \<Rightarrow> npar_loop tech rs (up npar_iter)
            | Some (Inr (Some w_info)) \<Rightarrow>
                npar_loop tech rs
                  (down (save_info npar_iter (get_next npar_iter, fst w_info, snd w_info))))
      else Some (Inr npar_iter))"

declare npar_loop.simps [code]

text \<open>
  Lines 1039-1048, the series correction and the returned tuple, from the unpacked
  saved solution.  \<open>lopt_unit\<close> counts resolution units.
\<close>

definition series_correction :: "real \<Rightarrow> real \<Rightarrow> int \<Rightarrow> int \<times> int \<times> int \<Rightarrow>
    error + (int \<times> int \<times> real \<times> real)" where
  "series_correction res lay_unit lmax_unit saved =
     (case saved of
        (num_par, wopt_unit, lopt_unit) \<Rightarrow>
          (let wopt = of_int wopt_unit * res
           in if lopt_unit > lmax_unit
              then (if lmax_unit = 0 then Inl ZeroDivisionError
                    else
                      (let num_ser = - ((- lopt_unit) div lmax_unit)
                       in if num_ser = 0 \<or> res = 0 then Inl ZeroDivisionError
                          else
                            (let lopt = of_int (py_round (of_int lopt_unit / of_int num_ser / res))
                                          * res
                             in Inr (num_par, num_ser, wopt * lay_unit, lopt * lay_unit))))
              else Inr (num_par, 1, wopt * lay_unit, of_int lopt_unit * res * lay_unit)))"

text \<open>
  Lines 980-992: the fixed values of the search, for a resolution that is not zero.
\<close>

definition res_search_of :: "TechInfo \<Rightarrow> string \<Rightarrow> real \<Rightarrow> real \<Rightarrow> real \<Rightarrow> real \<Rightarrow> res_search" where
  "res_search_of tech res_type res_targ idc iac_rms iac_peak =
     (let res = resolution tech;
          rsq = get_res_rsquare tech res_type;
          (wmin, wmax) = get_res_width_bounds tech res_type;
          (lmin, lmax) = get_res_length_bounds tech res_type;
          min_nsq = get_res_min_nsquare tech res_type;
          wmin_unit = py_round (wmin / res);
          wmax_unit = py_round (wmax / res);
          lmin_unit = py_round (lmin / res)
      in \<lparr>rs_res_type = res_type, rs_res_targ = res_targ, rs_idc = idc, rs_iac_rms = iac_rms,
          rs_iac_peak = iac_peak, rs_rsq = rsq, rs_wmax = wmax, rs_min_nsq = min_nsq,
          rs_wmin_unit = - 2 * ((- wmin_unit) div 2), rs_wmax_unit = 2 * (wmax_unit div 2),
          rs_lmin_unit = lmin_unit\<rparr>)"

text \<open>
  Lines 980-1048.  The result is \<open>None\<close> when the search does not end, \<open>Some (Inl e)\<close>
  when an exception leaves the function (a zero resolution raises in line 986, a parallel
  count too large for a float in line 1001; unpacking a \<open>None\<close> saved solution in
  line 1038 is a \<open>TypeError\<close>), and \<open>Some (Inr (num_par, num_ser, w, l))\<close> when it
  returns.
\<close>

definition design_resistor :: "TechInfo \<Rightarrow> string \<Rightarrow> real \<Rightarrow> real \<Rightarrow> real \<Rightarrow> real \<Rightarrow> bool \<Rightarrow>
    (error + (int \<times> int \<times> real \<times> real)) option" where
  "design_resistor tech res_type res_targ idc iac_rms iac_peak num_even =
     (let res = resolution tech
      in if res = 0 then Some (Inl ZeroDivisionError)
         else
           (let rs = res_search_of tech res_type res_targ idc iac_rms iac_peak;
                lmax_unit = py_round (snd (get_res_length_bounds tech res_type) / res);
                npar_iter = (if num_even then BinaryIterator 2 None 2
                             else BinaryIterator 1 None 1)
            in case npar_loop tech rs npar_iter of
                 None \<Rightarrow> None
               | Some (Inl e) \<Rightarrow> Some (Inl e)
               | Some (Inr it) \<Rightarrow>
                   (case get_last_save_info it of
                      None \<Rightarrow> Some (Inl TypeError)
                    | Some saved \<Rightarrow>
                        Some (series_correction res (layout_unit tech) lmax_unit saved))))"

section \<open>Example technologies\<close>

text \<open>
  A process with one metal type whose current limits are unbounded, as in
  \<open>DummyTechInfo\<close>; the via types and the via rules are the two arguments.  The
  resolution 0.5 and the layout unit 1.0 are exact binary floats.
\<close>

definition example_tech :: "(string \<Rightarrow> string \<Rightarrow> (string \<times> int) list) \<Rightarrow>
    (string \<Rightarrow> string \<Rightarrow> string \<Rightarrow> int \<Rightarrow> bool \<Rightarrow> error + drc_info) \<Rightarrow> TechInfo" where
  "example_tech types drc =
     \<lparr>resolution = 1 / 2, layout_unit = 1, get_via_types = types, get_via_drc_info = drc,
      fix_string = (\<lambda>s. s), get_layer_id = (\<lambda>n. 1), get_layer_type = (\<lambda>n. n),
      get_via_name = (\<lambda>i. ''via''),
      get_via_em_specs = (\<lambda>vn bl tl vt bd td arr. (PInf, PInf, PInf)),
      get_res_rsquare = (\<lambda>t. 1), get_res_width_bounds = (\<lambda>t. (1, 1)),
      get_res_length_bounds = (\<lambda>t. (1, 10)), get_res_min_nsquare = (\<lambda>t. 1),
      get_res_em_specs = (\<lambda>t w l. (PInf, PInf, PInf))\<rparr>"

text \<open>Rules for the square via only; the lookups for the other via types raise.\<close>

definition square_only :: "drc_info \<Rightarrow> string \<Rightarrow> string \<Rightarrow> string \<Rightarrow> int \<Rightarrow> bool \<Rightarrow>
    error + drc_info" where
  "square_only info vname vtype mtype mw_unit is_bot =
     (if vtype = ''square'' then Inr info else Inl ValueError)"

text \<open>A 2 by 2 via with base spacing 1, 2-neighbor spacing 2 and no 3+-neighbor rule.\<close>

definition info_no_sp3 :: drc_info where
  "info_no_sp3 =
     \<lparr>sp = (1, 1), sp2_list = Some [(2, 2)], sp3_list = None, dim = (2, 2), enc = [(0, 0)],
      arr_enc = None, arr_test = None\<rparr>"

text \<open>The same via with the base rule only.\<close>

definition info_base :: drc_info where
  "info_base =
     \<lparr>sp = (1, 1), sp2_list = None, sp3_list = None, dim = (2, 2), enc = [(0, 0)],
      arr_enc = None, arr_test = None\<rparr>"

text \<open>The via of the base-rule example in a 10 by 10 box centred at (5, 5).\<close>

definition example_bbox :: bbox_arg where
  "example_bbox = \<lparr>bbox_w = 10, bbox_h = 10, bbox_xc_unit = 5, bbox_yc_unit = 5\<rparr>"

definition example_via_info :: via_info where
  "example_via_info =
     \<lparr>via_resistance = 0, via_idc = PInf, via_iac_rms = PInf, via_iac_peak = PInf,
      via_params =
        \<lparr>par_id = ''m2_m1'', par_loc = (5, 5), par_orient = ''R0'', num_rows = 3,
         num_cols = 3, sp_rows = 1, sp_cols = 1, enc1 = [1, 1, 1, 1], enc2 = [1, 1, 1, 1],
         cut_width = 2, cut_height = 2\<rparr>,
      via_top_box =
        \<lparr>left_unit = 0, bottom_unit = 0, right_unit = 10, top_unit = 10, bbox_res = 1 / 2\<rparr>,
      via_bot_box =
        \<lparr>left_unit = 0, bottom_unit = 0, right_unit = 10, top_unit = 10, bbox_res = 1 / 2\<rparr>\<rparr>"

text \<open>
  A resistor whose DC limit in amperes equals its width in layout units, with no RMS limit
  (zero) and an unbounded peak limit; and the fixed values of a search for 15 ohms under
  the specs 4 A (DC), 9 A (RMS) and 9 A (peak).
\<close>

definition em_tech :: TechInfo where
  "em_tech = (example_tech TechInfo_get_via_types (square_only info_base))
     \<lparr>get_res_em_specs := (\<lambda>t w l. (Fin w, Fin 0, PInf))\<rparr>"

definition em_search :: res_search where
  "em_search =
     \<lparr>rs_res_type = ''res'', rs_res_targ = 15, rs_idc = 4, rs_iac_rms = 9, rs_iac_peak = 9,
      rs_rsq = 1, rs_wmax = 1, rs_min_nsq = 1, rs_wmin_unit = 2, rs_wmax_unit = 2,
      rs_lmin_unit = 2\<rparr>"

text \<open>
  The series correction in the words of the spec, section 4.3: for a found length \<open>l\<close>
  above the maximum length, \<open>n_ser = ceil(l / max_length)\<close> and the per-device length is
  \<open>round(l / n_ser)\<close>; both lengths count resolution units.
\<close>

definition series_correction_spec :: "int \<Rightarrow> int \<Rightarrow> int \<times> int" where
  "series_correction_spec l lmax_unit =
     (if l > lmax_unit
      then (let n_ser = \<lceil>of_int l / (of_int lmax_unit :: real)\<rceil>
            in (n_ser, py_round (of_int l / of_int n_ser)))
      else (1, l))"

text \<open>
  A resistor with sheet resistance 1 ohm per square, width 1.0 only and length between 1.0
  and 10.0 layout units, without current limits; and the fixed values of the search for
  15 ohms without current specs.
\<close>

definition ser_tech :: TechInfo where
  "ser_tech = example_tech TechInfo_get_via_types (square_only info_base)"

definition ser_search :: res_search where
  "ser_search = em_search\<lparr>rs_idc := 0, rs_iac_rms := 0, rs_iac_peak := 0\<rparr>"

section \<open>Well-formed rules\<close>

text \<open>
  Conditions on the answers of the provider under which the optimizer raises no exception
  of its own: an array test comes with an array enclosure list, and the via size plus the
  smallest spacing is positive in each axis.
\<close>

definition arr_ok :: "drc_info \<Rightarrow> bool" where
  "arr_ok info = (arr_test info \<noteq> None \<longrightarrow> arr_enc info \<noteq> None)"

definition rules_ok :: "drc_info \<Rightarrow> drc_info \<Rightarrow> bool" where
  "rules_ok bot_info top_info =
     (arr_ok bot_info \<and> arr_ok top_info \<and>
      0 < fst (dim bot_info) + fst (sp_min bot_info) \<and>
      0 < snd (dim bot_info) + snd (sp_min bot_info))"

text \<open>All enclosure pairs of a rule set, the array pairs included, are non-negative.\<close>

definition enc_nonneg :: "drc_info \<Rightarrow> bool" where
  "enc_nonneg info =
     (\<forall>e \<in> set (enc info) \<union> (case arr_enc info of None \<Rightarrow> {} | Some a \<Rightarrow> set a).
        0 \<le> fst e \<and> 0 \<le> snd e)"

text \<open>
  A process with a 1 by 1 square via and a 1 by 2 vertical rectangular via, both with
  spacing (1, 1) and no required enclosure; there is no horizontal rectangular via.
\<close>

definition rect_rules :: "string \<Rightarrow> string \<Rightarrow> string \<Rightarrow> int \<Rightarrow> bool \<Rightarrow> error + drc_info" where
  "rect_rules vname vtype mtype mw_unit is_bot =
     (if vtype = ''square'' then Inr (info_base\<lparr>dim := (1, 1)\<rparr>)
      else if vtype = ''vrect'' then Inr (info_base\<lparr>dim := (1, 2)\<rparr>)
      else Inl ValueError)"

definition rect_tech :: TechInfo where
  "rect_tech = example_tech TechInfo_get_via_types rect_rules"

text \<open>The optima of the two via types of this process in boxes 1 by 7 and 1 by 8.\<close>

definition square_opt_7 :: via_opt where
  "square_opt_7 =
     \<lparr>opt_nxy = (1, 4), opt_mdim_list = [(1, 7), (1, 7)], opt_adim = (1, 7), opt_sp = (1, 1)\<rparr>"

definition vrect_opt_7 :: via_opt where
  "vrect_opt_7 =
     \<lparr>opt_nxy = (1, 2), opt_mdim_list = [(1, 7), (1, 7)], opt_adim = (1, 5), opt_sp = (1, 1)\<rparr>"

definition square_opt_8 :: via_opt where
  "square_opt_8 =
     \<lparr>opt_nxy = (1, 4), opt_mdim_list = [(1, 8), (1, 8)], opt_adim = (1, 7), opt_sp = (1, 1)\<rparr>"

definition vrect_opt_8 :: via_opt where
  "vrect_opt_8 =
     \<lparr>opt_nxy = (1, 3), opt_mdim_list = [(1, 8), (1, 8)], opt_adim = (1, 8), opt_sp = (1, 1)\<rparr>"








section \<open>Properties of the via array optimizer\<close>

subsection \<open>The enumerated configurations\<close>

lemma nxy_list_set:
  "set (nxy_list nx_max ny_max) =
     {(a * b, a, b) | a b. 1 \<le> a \<and> a \<le> nx_max \<and> 1 \<le> b \<and> b \<le> ny_max}"
  by (auto simp: nxy_list_def)

lemma nxy_list_sorted: "sorted_wrt (\<lambda>x y. y \<le> x) (nxy_list nx_max ny_max)"
  by (simp add: nxy_list_def sorted_wrt_rev)

text \<open>
  Claim C9.  For every \<open>(num, nx, ny)\<close> that \<open>get_best_via_array\<close> enumerates, the
  spacing pairs tried are: the 2-neighbor list for exactly 2 by 2; the 3+-neighbor list
  when one count is greater than 2 and the other greater than 1; and the base rule alone
  in every other case, which is the case of a single row or a single column.
\<close>

theorem sp_combo_regime:
  assumes "(num, nx, ny) \<in> set (nxy_list nx_max ny_max)"
  shows "sp_combo info nx ny =
           (if nx = 2 \<and> ny = 2 then sp2_default info
            else if (nx > 2 \<and> ny > 1) \<or> (ny > 2 \<and> nx > 1) then sp3_default info
            else [sp info])
         \<and> ((\<not> (nx = 2 \<and> ny = 2) \<and> \<not> ((nx > 2 \<and> ny > 1) \<or> (ny > 2 \<and> nx > 1)))
              \<longleftrightarrow> (nx = 1 \<or> ny = 1))"
proof -
  from assms have "1 \<le> nx" "1 \<le> ny" by (auto simp: nxy_list_set)
  then show ?thesis by (auto simp: sp_combo_def)
qed

theorem sp_combo_regime_witness:
  "(6, 3, 2) \<in> set (nxy_list 3 3) \<and>
   sp_combo \<lparr>sp = (1, 1), sp2_list = Some [(2, 2)], sp3_list = Some [(3, 3)], dim = (2, 2),
             enc = [(0, 0)], arr_enc = None, arr_test = None\<rparr> 3 2 = [(3, 3)]"
proof -
  have m: "(6, 3, 2) \<in> set (nxy_list 3 3)" by (simp add: nxy_list_set)
  show ?thesis using m sp_combo_regime [OF m] by (simp add: sp3_default_def)
qed

subsection \<open>Absent spacing regimes\<close>

text \<open>
  Claim C3, as stated, fails: an absent 3+-neighbor regime does not fall back to the base
  rule when a 2-neighbor list is supplied.  With base spacing (1, 1), 2-neighbor spacing
  (2, 2) and no 3+-neighbor rule, the 3 by 3 array of a 10 by 10 box is tried, and
  returned, with spacing (2, 2).
\<close>

theorem absent_sp3_counterexample:
  "sp3_list info_no_sp3 = None \<and> sp info_no_sp3 = (1, 1) \<and>
   sp_combo info_no_sp3 3 3 = [(2, 2)] \<and>
   get_best_via_array (example_tech TechInfo_get_via_types (square_only info_no_sp3))
       ''via'' ''m'' ''m'' ''x'' ''y'' 10 10 True
     = Inr (Some ((3, 3), [(10, 10), (10, 10)], ''square'', (2, 2), (2, 2), (10, 10)))"
  by code_simp

text \<open>
  Claim C3, amended.  An absent 2-neighbor regime defaults to the base rule; an absent
  3+-neighbor regime defaults to the 2-neighbor list, as supplied or as defaulted.  So a
  configuration in the absent 3+-neighbor regime is tried with the 2-neighbor pairs, which
  are the base rule's exactly when the 2-neighbor regime is absent as well.
\<close>

theorem absent_regime_defaults:
  "(sp2_list info = None \<longrightarrow> sp2_default info = [sp info]) \<and>
   (sp3_list info = None \<longrightarrow> sp3_default info = sp2_default info) \<and>
   (sp3_list info = None \<and> nx > 1 \<and> ny > 1 \<and> \<not> (nx = 2 \<and> ny = 2) \<longrightarrow>
      sp_combo info nx ny = sp2_default info) \<and>
   (sp3_list info = None \<and> sp2_list info = None \<longrightarrow> sp_combo info nx ny = [sp info])"
  by (auto simp: sp2_default_def sp3_default_def sp_combo_def)

theorem absent_regime_defaults_witness:
  "sp3_list info_no_sp3 = None \<and> sp_combo info_no_sp3 3 3 = sp2_default info_no_sp3 \<and>
   sp2_list info_base = None \<and> sp3_list info_base = None \<and>
   sp_combo info_base 3 3 = [sp info_base]"
  using absent_regime_defaults [of info_no_sp3 3 3] absent_regime_defaults [of info_base 3 3]
  by (simp add: info_no_sp3_def info_base_def)

section \<open>Properties of the via instance builder\<close>

lemma example_get_via_info:
  "get_via_info (example_tech TechInfo_get_via_types (square_only info_base)) example_bbox
       (LayerName ''m1'') (LayerTuple ''m2'' ''drawing'') ''x'' (- 1) (- 1) True None
     = Inr (Some example_via_info)"
  by code_simp

text \<open>
  Claim C10.  Whenever \<open>get_via_info\<close> returns a dictionary, its resistance entry is
  0.0, whatever the via type, the array size and the current limits of the provider.
\<close>

theorem get_via_info_resistance:
  assumes "get_via_info tech bbox bot_layer top_layer bot_dir bot_len top_len ext top_dir
             = Inr (Some info)"
  shows "via_resistance info = 0"
  using assms
  by (auto simp: get_via_info_def build_via_info_def Let_def
           split: sum.splits option.splits prod.splits list.splits if_splits)

theorem get_via_info_resistance_witness:
  "get_via_info (example_tech TechInfo_get_via_types (square_only info_base)) example_bbox
       (LayerName ''m1'') (LayerTuple ''m2'' ''drawing'') ''x'' (- 1) (- 1) True None
     = Inr (Some example_via_info) \<and> via_resistance example_via_info = 0"
  using example_get_via_info get_via_info_resistance [OF example_get_via_info] by simp

section \<open>Properties of the resistor sizer\<close>

subsection \<open>The test on the current limits\<close>

lemma fl_pos_lt_iff:
  "fl_lt (Fin 0) l \<and> fl_lt l (Fin s) \<longleftrightarrow> (\<exists>x. l = Fin x \<and> 0 < x \<and> x < s)"
  by (cases l) auto

text \<open>
  Claim C6.  The test on the three current limits holds if and only if some limit is a
  finite number strictly between zero and its spec divided by the parallel count; limits
  that are zero or infinite never make it hold.  The pre-check at the maximum width
  declares the parallel count infeasible when the test holds and goes on to the width
  search when it does not; in the width search, a width whose length passes the length
  floor moves the search up when the test holds and is saved when it does not.
\<close>

theorem em_check_infeasible_iff:
  "(em_violated (res_idc, res_irms, res_ipeak) idc_par iac_rms_par iac_peak_par \<longleftrightarrow>
      (\<exists>x. (res_idc = Fin x \<and> 0 < x \<and> x < idc_par) \<or>
           (res_irms = Fin x \<and> 0 < x \<and> x < iac_rms_par) \<or>
           (res_ipeak = Fin x \<and> 0 < x \<and> x < iac_peak_par)))
   \<and> ((\<forall>l \<in> {res_idc, res_irms, res_ipeak}. l = Fin 0 \<or> l = PInf) \<longrightarrow>
        \<not> em_violated (res_idc, res_irms, res_ipeak) idc_par iac_rms_par iac_peak_par)
   \<and> (npar \<noteq> 0 \<longrightarrow>
        npar_try tech rs npar =
          (if em_violated (get_res_em_specs tech (rs_res_type rs) (rs_wmax rs) (- 1))
                (rs_idc rs / of_int npar) (rs_iac_rms rs / of_int npar)
                (rs_iac_peak rs / of_int npar)
           then Some (Inr None)
           else (case w_loop tech rs npar
                        (BinaryIterator (rs_wmin_unit rs) (Some (rs_wmax_unit rs + 1)) 2) of
                   None \<Rightarrow> None
                 | Some (Inl e) \<Rightarrow> Some (Inl e)
                 | Some (Inr w_iter) \<Rightarrow> Some (Inr (get_last_save_info w_iter)))))
   \<and> (rs_rsq rs \<noteq> 0 \<longrightarrow>
        \<not> \<lceil>rs_res_targ rs * of_int npar / rs_rsq rs * of_int (get_next w_iter)\<rceil>
            < max (rs_lmin_unit rs) \<lceil>rs_min_nsq rs * of_int (get_next w_iter)\<rceil> \<longrightarrow>
        w_step tech rs npar w_iter =
          (if em_violated
                (get_res_em_specs tech (rs_res_type rs)
                   (of_int (get_next w_iter) * resolution tech)
                   (of_int \<lceil>rs_res_targ rs * of_int npar / rs_rsq rs * of_int (get_next w_iter)\<rceil>
                      * resolution tech))
                (rs_idc rs / of_int npar) (rs_iac_rms rs / of_int npar)
                (rs_iac_peak rs / of_int npar)
           then Inr (up w_iter)
           else Inr (down (save_info w_iter
                  (get_next w_iter,
                   \<lceil>rs_res_targ rs * of_int npar / rs_rsq rs * of_int (get_next w_iter)\<rceil>)))))"
proof (intro conjI)
  show "em_violated (res_idc, res_irms, res_ipeak) idc_par iac_rms_par iac_peak_par \<longleftrightarrow>
      (\<exists>x. (res_idc = Fin x \<and> 0 < x \<and> x < idc_par) \<or>
           (res_irms = Fin x \<and> 0 < x \<and> x < iac_rms_par) \<or>
           (res_ipeak = Fin x \<and> 0 < x \<and> x < iac_peak_par))"
    unfolding em_violated_def prod.case fl_pos_lt_iff by blast
  show "(\<forall>l \<in> {res_idc, res_irms, res_ipeak}. l = Fin 0 \<or> l = PInf) \<longrightarrow>
        \<not> em_violated (res_idc, res_irms, res_ipeak) idc_par iac_rms_par iac_peak_par"
    unfolding em_violated_def prod.case fl_pos_lt_iff by auto
qed (simp_all add: npar_try_def w_step_def Let_def)

theorem em_check_infeasible_iff_witness:
  "em_violated (Fin 1, Fin 0, PInf) 2 (9 / 2) (9 / 2) \<and>
   \<not> em_violated (Fin 0, PInf, Fin 0) 1 1 1 \<and>
   npar_try em_tech em_search 2 = Some (Inr None) \<and>
   w_step em_tech em_search 2 (BinaryIterator 2 (Some 3) 2)
     = Inr (up (BinaryIterator 2 (Some 3) 2)) \<and>
   w_step em_tech em_search 4 (BinaryIterator 2 (Some 3) 2)
     = Inr (down (save_info (BinaryIterator 2 (Some 3) 2) (2, 120)))"
  using em_check_infeasible_iff [of "Fin 1" "Fin 0" PInf 2 "9 / 2" "9 / 2" 2 em_tech em_search
          "BinaryIterator 2 (Some 3) 2"]
        em_check_infeasible_iff [of "Fin 0" PInf "Fin 0" 1 1 1 4 em_tech em_search
          "BinaryIterator 2 (Some 3) 2"]
  by (simp add: em_tech_def em_search_def example_tech_def em_violated_def get_next_def
        BinaryIterator_def Let_def)

subsection \<open>Running the two searches\<close>

lemma w_loop_step:
  "has_next it \<Longrightarrow> w_step tech rs npar it = Inr it' \<Longrightarrow>
   w_loop tech rs npar it = w_loop tech rs npar it'"
  by (subst w_loop.simps) simp

lemma w_loop_done: "\<not> has_next it \<Longrightarrow> w_loop tech rs npar it = Some (Inr it)"
  by (subst w_loop.simps) simp

lemma npar_loop_done: "\<not> has_next it \<Longrightarrow> npar_loop tech rs it = Some (Inr it)"
  by (subst npar_loop.simps) simp

lemma float_of_int_ok_small: "\<bar>n\<bar> \<le> 2 ^ 64 \<Longrightarrow> float_of_int_ok n"
  by (simp add: float_of_int_ok_def float_int_bound_def)

lemma npar_loop_down:
  "has_next it \<Longrightarrow> float_of_int_ok (get_next it) \<Longrightarrow>
   npar_try tech rs (get_next it) = Some (Inr (Some w_info)) \<Longrightarrow>
   npar_loop tech rs it =
     npar_loop tech rs (down (save_info it (get_next it, fst w_info, snd w_info)))"
  by (subst npar_loop.simps) (simp add: npar_probe_def)



lemmas iterator_defs =
  has_next_def get_next_def up_def down_def save_info_def get_last_save_info_def
  BinaryIterator_def

lemma py_round_of_int: "py_round (of_int n) = n"
  by (simp add: py_round_def Let_def)

lemma py_round_numeral: "py_round (numeral k) = numeral k"
  using py_round_of_int [of "numeral k"] by simp

subsection \<open>The series correction\<close>

lemma series_npar_try: "npar_try ser_tech ser_search 1 = Some (Inr (Some (2, 30)))"
proof -
  let ?it0 = "BinaryIterator 2 (Some 3) 2 :: (int \<times> int) BinaryIterator"
  let ?it1 = "down (save_info ?it0 (2, 30))"
  have s0: "w_step ser_tech ser_search 1 ?it0 = Inr ?it1"
    by (simp add: w_step_def ser_search_def em_search_def ser_tech_def example_tech_def iterator_defs em_violated_def
        Let_def)
  have h0: "has_next ?it0" by (simp add: iterator_defs Let_def)
  have h1: "\<not> has_next ?it1" by (simp add: iterator_defs Let_def)
  have "w_loop ser_tech ser_search 1 ?it0 = Some (Inr ?it1)"
    using w_loop_step [OF h0 s0] w_loop_done [OF h1] by simp
  then show ?thesis
    by (simp add: npar_try_def ser_search_def em_search_def ser_tech_def example_tech_def em_violated_def
        iterator_defs Let_def)
qed

lemma series_npar_loop:
  "npar_loop ser_tech ser_search (BinaryIterator 1 None 1)
     = Some (Inr (down (save_info (BinaryIterator 1 None 1) (1, 2, 30))))"
proof -
  let ?it0 = "BinaryIterator 1 None 1 :: (int \<times> int \<times> int) BinaryIterator"
  let ?it1 = "down (save_info ?it0 (1, 2, 30))"
  have g: "get_next ?it0 = 1" by (simp add: iterator_defs)
  have h0: "has_next ?it0" by (simp add: iterator_defs Let_def)
  have h1: "\<not> has_next ?it1" by (simp add: iterator_defs Let_def)
  have f: "float_of_int_ok (get_next ?it0)" unfolding g by (rule float_of_int_ok_small) simp
  show ?thesis
    using npar_loop_down [OF h0 f, of ser_tech ser_search "(2, 30)"] series_npar_try
      npar_loop_done [OF h1] g by simp
qed

text \<open>
  Claim C1 at a concrete call (the code departs from the claim here).  With resolution
  0.5 the search for 15 ohms finds the length 30 units, above the maximum of 20 units.
  The returned series count is 2, as claimed, but the returned unit length is 15 layout
  units, which is the whole pre-correction length (30 units of 0.5), where the claimed
  \<open>round(l / num_series)\<close> units are 15 units, that is 7.5 layout units: line 1042
  divides the unit count \<open>lopt_unit\<close> by the resolution once more before rounding.
\<close>

theorem design_resistor_series_length:
  "design_resistor ser_tech ''res'' 15 0 0 0 False = Some (Inr (1, 2, 1, 15)) \<and>
   series_correction_spec 30 20 = (2, 15) \<and>
   of_int (snd (series_correction_spec 30 20)) * resolution ser_tech * layout_unit ser_tech = 15 / 2"
proof -
  have "get_last_save_info (down (save_info (BinaryIterator 1 None 1) (1, 2, 30)))
          = Some (1 :: int, 2 :: int, 30 :: int)"
    by (simp add: iterator_defs)
  then have "design_resistor ser_tech ''res'' 15 0 0 0 False = Some (Inr (1, 2, 1, 15))"
    using series_npar_loop
    by (simp add: design_resistor_def res_search_of_def ser_tech_def example_tech_def Let_def
        ser_search_def em_search_def py_round_numeral series_correction_def)
  moreover have "series_correction_spec 30 20 = (2, 15)"
    by (simp add: series_correction_spec_def Let_def py_round_numeral)
  ultimately show ?thesis by (simp add: ser_tech_def example_tech_def)
qed

section \<open>Properties of the via array optimizer, continued\<close>

subsection \<open>Layers and spacing pairs\<close>

lemma enc_loop_None_iff:
  "enc_loop ext i ed xd dl md acc es = None \<longleftrightarrow>
     acc = None \<and> (\<forall>e \<in> set es. \<not> enc_pass ext i ed xd dl md e)"
  by (induction es arbitrary: acc) (auto simp: Let_def split: option.splits)

lemma check_layer_SomeD:
  assumes "check_layer ext w h nx ny wa ha mdir encs aenc atst = Inr (Some m)"
    and "layer_axes mdir w h wa ha = (i, ed, xd, dl, md)"
  shows "\<exists>tot. tot_enc encs aenc atst nx ny = Inr tot \<and> (\<exists>e \<in> set tot. enc_pass ext i ed xd dl md e)"
proof -
  from assms obtain tot where t: "tot_enc encs aenc atst nx ny = Inr tot"
    and "enc_loop ext i ed xd dl md None tot \<noteq> None"
    by (auto simp: check_layer_def split: sum.splits option.splits)
  then show ?thesis by (auto simp: enc_loop_None_iff)
qed

lemma check_layer_SomeI:
  assumes "tot_enc encs aenc atst nx ny = Inr tot"
    and "layer_axes mdir w h wa ha = (i, ed, xd, dl, md)"
    and "e \<in> set tot" "enc_pass ext i ed xd dl md e"
  shows "\<exists>m. check_layer ext w h nx ny wa ha mdir encs aenc atst = Inr (Some m)"
proof -
  from assms have "enc_loop ext i ed xd dl md None tot \<noteq> None"
    by (auto simp: enc_loop_None_iff)
  with assms(1,2) show ?thesis
    by (auto simp: check_layer_def Let_def split: option.splits)
qed

lemma check_layer_no_error:
  assumes "tot_enc encs aenc atst nx ny = Inr tot"
  shows "\<exists>r. check_layer ext w h nx ny wa ha mdir encs aenc atst = Inr r"
  using assms by (auto simp: check_layer_def Let_def split: option.splits prod.splits)

lemma tot_enc_total:
  "arr_ok info \<Longrightarrow> \<exists>tot. tot_enc (enc info) (arr_enc info) (arr_test info) nx ny = Inr tot"
  by (auto simp: arr_ok_def tot_enc_def split: option.splits)

lemma enc_pass_mono:
  "enc_pass ext i ed xd dl md e \<Longrightarrow> dl \<le> dl' \<Longrightarrow> md \<le> md' \<Longrightarrow> enc_pass ext i ed xd dl' md' e"
  by (auto simp: enc_pass_def Let_def)

lemma layer_axes_mono:
  assumes "layer_axes mdir w h wa ha = (i, ed, xd, dl, md)" "w \<le> w'" "h \<le> h'"
  shows "\<exists>dl' md'. layer_axes mdir w' h' wa ha = (i, ed, xd, dl', md') \<and> dl \<le> dl' \<and> md \<le> md'"
  using assms by (auto simp: layer_axes_def split: if_splits)

lemma check_layer_mono:
  assumes "check_layer ext w h nx ny wa ha mdir encs aenc atst = Inr (Some m)" "w \<le> w'" "h \<le> h'"
  shows "\<exists>m'. check_layer ext w' h' nx ny wa ha mdir encs aenc atst = Inr (Some m')"
proof -
  obtain i ed xd dl md where ax: "layer_axes mdir w h wa ha = (i, ed, xd, dl, md)"
    by (cases "layer_axes mdir w h wa ha") auto
  from check_layer_SomeD [OF assms(1) ax] obtain tot e where
    t: "tot_enc encs aenc atst nx ny = Inr tot" and e: "e \<in> set tot" "enc_pass ext i ed xd dl md e"
    by blast
  from layer_axes_mono [OF ax assms(2,3)] obtain dl' md' where
    ax': "layer_axes mdir w' h' wa ha = (i, ed, xd, dl', md')" and le: "dl \<le> dl'" "md \<le> md'"
    by blast
  from enc_pass_mono [OF e(2) le] have "enc_pass ext i ed xd dl' md' e" .
  from check_layer_SomeI [OF t ax' e(1) this] show ?thesis .
qed

lemma check_layers_Some_iff:
  "check_layers ext w h bd td bi ti nx ny wa ha = Inr (Some ml) \<longleftrightarrow>
     (\<exists>mb mt. check_layer ext w h nx ny wa ha bd (enc bi) (arr_enc bi) (arr_test bi) = Inr (Some mb) \<and>
              check_layer ext w h nx ny wa ha td (enc ti) (arr_enc ti) (arr_test ti) = Inr (Some mt) \<and>
              ml = [mb, mt])"
  by (auto simp: check_layers_def split: sum.splits option.splits)

lemma check_layers_mono:
  assumes "check_layers ext w h bd td bi ti nx ny wa ha = Inr (Some ml)" "w \<le> w'" "h \<le> h'"
  shows "\<exists>ml'. check_layers ext w' h' bd td bi ti nx ny wa ha = Inr (Some ml')"
proof -
  from assms(1) obtain mb mt where
    b: "check_layer ext w h nx ny wa ha bd (enc bi) (arr_enc bi) (arr_test bi) = Inr (Some mb)"
    and t: "check_layer ext w h nx ny wa ha td (enc ti) (arr_enc ti) (arr_test ti) = Inr (Some mt)"
    unfolding check_layers_Some_iff by blast
  from check_layer_mono [OF b assms(2,3)] check_layer_mono [OF t assms(2,3)]
  show ?thesis unfolding check_layers_Some_iff by blast
qed

lemma check_layers_no_error:
  assumes "arr_ok bi" "arr_ok ti"
  shows "\<exists>r. check_layers ext w h bd td bi ti nx ny wa ha = Inr r"
proof -
  from tot_enc_total [OF assms(1)] check_layer_no_error
  obtain rb where b: "check_layer ext w h nx ny wa ha bd (enc bi) (arr_enc bi) (arr_test bi) = Inr rb"
    by blast
  from tot_enc_total [OF assms(2)] check_layer_no_error
  obtain rt where t: "check_layer ext w h nx ny wa ha td (enc ti) (arr_enc ti) (arr_test ti) = Inr rt"
    by blast
  show ?thesis using b t by (auto simp: check_layers_def split: option.splits)
qed

lemma sp_loop_SomeD:
  "sp_loop ext w h bd td bi ti nx ny combo = Inr (Some opt) \<Longrightarrow>
   \<exists>spx spy ml. (spx, spy) \<in> set combo \<and>
     check_layers ext w h bd td bi ti nx ny (nx * (spx + fst (dim bi)) - spx)
       (ny * (spy + snd (dim bi)) - spy) = Inr (Some ml) \<and>
     opt = \<lparr>opt_nxy = (nx, ny), opt_mdim_list = ml,
            opt_adim = (nx * (spx + fst (dim bi)) - spx, ny * (spy + snd (dim bi)) - spy),
            opt_sp = (spx, spy)\<rparr>"
proof (induction combo)
  case Nil
  then show ?case by simp
next
  case (Cons p combo)
  obtain spx spy where p: "p = (spx, spy)" by (cases p)
  show ?case
  proof (cases "check_layers ext w h bd td bi ti nx ny (nx * (spx + fst (dim bi)) - spx)
       (ny * (spy + snd (dim bi)) - spy)")
    case (Inl e)
    with Cons.prems p show ?thesis by (simp add: Let_def)
  next
    case (Inr r)
    show ?thesis
    proof (cases r)
      case None
      with Inr Cons.prems p have "sp_loop ext w h bd td bi ti nx ny combo = Inr (Some opt)"
        by (simp add: Let_def)
      from Cons.IH [OF this] show ?thesis by auto
    next
      case (Some ml)
      with Inr Cons.prems p show ?thesis by (auto simp: Let_def)
    qed
  qed
qed

lemma sp_loop_no_error:
  assumes "arr_ok bi" "arr_ok ti"
  shows "\<exists>r. sp_loop ext w h bd td bi ti nx ny combo = Inr r"
proof (induction combo)
  case Nil
  then show ?case by simp
next
  case (Cons p combo)
  obtain spx spy where p: "p = (spx, spy)" by (cases p)
  from check_layers_no_error [OF assms] obtain r where
    "check_layers ext w h bd td bi ti nx ny (nx * (spx + fst (dim bi)) - spx)
       (ny * (spy + snd (dim bi)) - spy) = Inr r" by blast
  with Cons.IH p show ?case by (cases r) (auto simp: Let_def)
qed

lemma sp_loop_SomeI:
  assumes "arr_ok bi" "arr_ok ti"
  shows "(spx, spy) \<in> set combo \<Longrightarrow>
     check_layers ext w h bd td bi ti nx ny (nx * (spx + fst (dim bi)) - spx)
       (ny * (spy + snd (dim bi)) - spy) = Inr (Some ml) \<Longrightarrow>
     \<exists>opt. sp_loop ext w h bd td bi ti nx ny combo = Inr (Some opt)"
proof (induction combo)
  case Nil
  then show ?case by simp
next
  case (Cons p combo)
  obtain px py where p: "p = (px, py)" by (cases p)
  from check_layers_no_error [OF assms] obtain r where
    r: "check_layers ext w h bd td bi ti nx ny (nx * (px + fst (dim bi)) - px)
       (ny * (py + snd (dim bi)) - py) = Inr r" by blast
  show ?case
  proof (cases r)
    case None
    with r Cons.prems p have "(spx, spy) \<in> set combo" by auto
    from Cons.IH [OF this Cons.prems(2)] r None p show ?thesis by (auto simp: Let_def)
  next
    case (Some a)
    with r p show ?thesis by (auto simp: Let_def)
  qed
qed

lemma sp_loop_mono:
  assumes "arr_ok bi" "arr_ok ti" "w \<le> w'" "h \<le> h'"
    and "sp_loop ext w h bd td bi ti nx ny combo = Inr (Some opt)"
  shows "\<exists>opt'. sp_loop ext w' h' bd td bi ti nx ny combo = Inr (Some opt')"
proof -
  from sp_loop_SomeD [OF assms(5)] obtain spx spy ml where
    m: "(spx, spy) \<in> set combo" and
    c: "check_layers ext w h bd td bi ti nx ny (nx * (spx + fst (dim bi)) - spx)
       (ny * (spy + snd (dim bi)) - spy) = Inr (Some ml)" by blast
  from check_layers_mono [OF c assms(3,4)] obtain ml' where
    "check_layers ext w' h' bd td bi ti nx ny (nx * (spx + fst (dim bi)) - spx)
       (ny * (spy + snd (dim bi)) - spy) = Inr (Some ml')" by blast
  from sp_loop_SomeI [OF assms(1,2) m this] show ?thesis .
qed

subsection \<open>The optimum of one via type\<close>

lemma nxy_loop_SomeD:
  "nxy_loop ext w h bd td bi ti L = Inr (Some opt) \<Longrightarrow>
   \<exists>num nx ny. (num, nx, ny) \<in> set L \<and>
     sp_loop ext w h bd td bi ti nx ny (sp_combo bi nx ny) = Inr (Some opt)"
proof (induction L)
  case Nil
  then show ?case by simp
next
  case (Cons x L)
  obtain num nx ny where x: "x = (num, nx, ny)" by (cases x)
  show ?case
  proof (cases "sp_loop ext w h bd td bi ti nx ny (sp_combo bi nx ny)")
    case (Inl e)
    with Cons.prems x show ?thesis by simp
  next
    case (Inr r)
    show ?thesis
    proof (cases r)
      case None
      with Inr Cons.prems x have "nxy_loop ext w h bd td bi ti L = Inr (Some opt)" by simp
      from Cons.IH [OF this] show ?thesis by auto
    next
      case (Some a)
      with Inr Cons.prems x show ?thesis by auto
    qed
  qed
qed

lemma nxy_loop_no_error:
  assumes "arr_ok bi" "arr_ok ti"
  shows "\<exists>r. nxy_loop ext w h bd td bi ti L = Inr r"
proof (induction L)
  case Nil
  then show ?case by simp
next
  case (Cons x L)
  obtain num nx ny where x: "x = (num, nx, ny)" by (cases x)
  from sp_loop_no_error [OF assms] obtain r where
    "sp_loop ext w h bd td bi ti nx ny (sp_combo bi nx ny) = Inr r" by blast
  with Cons.IH x show ?case by (cases r) auto
qed

lemma nxy_loop_first:
  assumes "arr_ok bi" "arr_ok ti"
  shows "sorted_wrt (\<lambda>x y. y \<le> x) L \<Longrightarrow> (num, nx, ny) \<in> set L \<Longrightarrow>
     sp_loop ext w h bd td bi ti nx ny (sp_combo bi nx ny) = Inr (Some opt) \<Longrightarrow>
     \<exists>opt' num' nx' ny'. nxy_loop ext w h bd td bi ti L = Inr (Some opt') \<and>
        (num', nx', ny') \<in> set L \<and> (num, nx, ny) \<le> (num', nx', ny') \<and>
        opt_nxy opt' = (nx', ny')"
proof (induction L)
  case Nil
  then show ?case by simp
next
  case (Cons x L)
  obtain n0 x0 y0 where x: "x = (n0, x0, y0)" by (cases x)
  from sp_loop_no_error [OF assms] obtain r where
    r: "sp_loop ext w h bd td bi ti x0 y0 (sp_combo bi x0 y0) = Inr r" by blast
  show ?case
  proof (cases r)
    case None
    with r Cons.prems x have m: "(num, nx, ny) \<in> set L" by auto
    from Cons.prems(1) have s: "sorted_wrt (\<lambda>x y. y \<le> x) L" by simp
    from Cons.IH [OF s m Cons.prems(3)] r None x show ?thesis by auto
  next
    case (Some o')
    from sp_loop_SomeD [OF r [unfolded Some]] have nxy: "opt_nxy o' = (x0, y0)" by auto
    from Cons.prems(1,2) x have "(num, nx, ny) \<le> (n0, x0, y0)" by auto
    with r Some x nxy show ?thesis by auto
  qed
qed

lemma type_opt_SomeD:
  assumes "type_opt ext w h bd td bi ti = Inr (Some opt)"
  shows "\<exists>nx_max ny_max num nx ny.
     n_max w (fst (dim bi)) (fst (sp_min bi)) = Inr nx_max \<and>
     n_max h (snd (dim bi)) (snd (sp_min bi)) = Inr ny_max \<and>
     (num, nx, ny) \<in> set (nxy_list nx_max ny_max) \<and>
     sp_loop ext w h bd td bi ti nx ny (sp_combo bi nx ny) = Inr (Some opt)"
  using assms nxy_loop_SomeD
  by (fastforce simp: type_opt_def split: prod.splits sum.splits)

lemma type_opt_no_error:
  assumes "rules_ok bi ti"
  shows "\<exists>r. type_opt ext w h bd td bi ti = Inr r"
proof -
  from assms have a: "arr_ok bi" "arr_ok ti" by (auto simp: rules_ok_def)
  from assms have "fst (dim bi) + fst (sp_min bi) \<noteq> 0" "snd (dim bi) + snd (sp_min bi) \<noteq> 0"
    by (auto simp: rules_ok_def)
  then show ?thesis using nxy_loop_no_error [OF a]
    by (auto simp: type_opt_def n_max_def split: prod.splits)
qed

lemma type_opt_mono:
  assumes ok: "rules_ok bi ti" and le: "w \<le> w'" "h \<le> h'"
    and s: "type_opt ext w h bd td bi ti = Inr (Some opt)"
  shows "\<exists>opt'. type_opt ext w' h' bd td bi ti = Inr (Some opt') \<and>
     fst (opt_nxy opt) * snd (opt_nxy opt) \<le> fst (opt_nxy opt') * snd (opt_nxy opt')"
proof -
  from ok have a: "arr_ok bi" "arr_ok ti"
    and px: "0 < fst (dim bi) + fst (sp_min bi)" and py: "0 < snd (dim bi) + snd (sp_min bi)"
    by (auto simp: rules_ok_def)
  let ?dx = "fst (dim bi) + fst (sp_min bi)" and ?dy = "snd (dim bi) + snd (sp_min bi)"
  let ?nx1 = "(w + fst (sp_min bi)) div ?dx" and ?ny1 = "(h + snd (sp_min bi)) div ?dy"
  let ?nx2 = "(w' + fst (sp_min bi)) div ?dx" and ?ny2 = "(h' + snd (sp_min bi)) div ?dy"
  from type_opt_SomeD [OF s] px py obtain num nx ny where
    m: "(num, nx, ny) \<in> set (nxy_list ?nx1 ?ny1)" and
    sl: "sp_loop ext w h bd td bi ti nx ny (sp_combo bi nx ny) = Inr (Some opt)"
    by (auto simp: n_max_def)
  from sp_loop_SomeD [OF sl] have nxy: "opt_nxy opt = (nx, ny)" by auto
  from m have num: "num = nx * ny" and b: "1 \<le> nx" "nx \<le> ?nx1" "1 \<le> ny" "ny \<le> ?ny1"
    by (auto simp: nxy_list_set)
  from le px py have "?nx1 \<le> ?nx2" "?ny1 \<le> ?ny2"
    by (simp_all add: zdiv_mono1)
  with b num have m2: "(num, nx, ny) \<in> set (nxy_list ?nx2 ?ny2)"
    by (auto simp: nxy_list_set)
  from sp_loop_mono [OF a le sl] obtain o2 where
    sl2: "sp_loop ext w' h' bd td bi ti nx ny (sp_combo bi nx ny) = Inr (Some o2)" by blast
  from nxy_loop_first [OF a nxy_list_sorted m2 sl2] obtain opt' num' nx' ny' where
    r: "nxy_loop ext w' h' bd td bi ti (nxy_list ?nx2 ?ny2) = Inr (Some opt')" and
    m': "(num', nx', ny') \<in> set (nxy_list ?nx2 ?ny2)" and
    ge: "(num, nx, ny) \<le> (num', nx', ny')" and nxy': "opt_nxy opt' = (nx', ny')"
    by blast
  from m' have "num' = nx' * ny'" by (auto simp: nxy_list_set)
  moreover from ge have "num \<le> num'" by auto
  ultimately have "nx * ny \<le> nx' * ny'" using num by simp
  moreover from r px py have "type_opt ext w' h' bd td bi ti = Inr (Some opt')"
    by (auto simp: type_opt_def n_max_def split: prod.splits)
  ultimately show ?thesis using nxy nxy' by auto
qed

subsection \<open>The loop over the via types\<close>

lemma lookup_drc_SomeD:
  "lookup_drc tech vname vtype bmtype tmtype bb tb = Inr (Some (bi, ti)) \<Longrightarrow>
   get_via_drc_info tech vname vtype bmtype bb True = Inr bi \<and>
   get_via_drc_info tech vname vtype tmtype tb False = Inr ti"
  by (auto simp: lookup_drc_def split: sum.splits if_splits)

lemma type_candidate_SomeD:
  "type_candidate tech vname bmtype tmtype bd td w h ext vtype = Inr (Some (vdim, opt)) \<Longrightarrow>
   \<exists>bi ti. lookup_drc tech vname vtype bmtype tmtype (fst (dir_dims bd w h))
              (fst (dir_dims td w h)) = Inr (Some (bi, ti)) \<and>
           type_opt ext w h bd td bi ti = Inr (Some opt) \<and> vdim = dim bi"
  by (auto simp: type_candidate_def split: sum.splits option.splits)

lemma best_num_new_best [simp]: "best_num (new_best vt wt vd opt) = weighted_num wt opt"
  by (simp add: new_best_def)

lemma update_best_InrD:
  assumes "update_best res vt wt vd opt best = Inr r"
  shows "\<exists>b'. r = Some b' \<and> weighted_num wt opt \<le> best_num b' \<and>
     (\<forall>b. best = Some b \<longrightarrow> best_num b \<le> best_num b') \<and>
     (b' = new_best vt wt vd opt \<or> best = Some b')"
  using assms
  by (auto simp: update_best_def replaces_def split: sum.splits bool.splits option.splits if_splits)

lemma type_loop_InrD:
  "type_loop tech vn bm tm bd td w h ext best L = Inr r \<Longrightarrow>
   (\<forall>b. best = Some b \<longrightarrow> (\<exists>b'. r = Some b' \<and> best_num b \<le> best_num b')) \<and>
   (\<forall>vt wt vd opt. (vt, wt) \<in> set L \<longrightarrow>
      type_candidate tech vn bm tm bd td w h ext vt = Inr (Some (vd, opt)) \<longrightarrow>
      (\<exists>b'. r = Some b' \<and> weighted_num wt opt \<le> best_num b')) \<and>
   (\<forall>b'. r = Some b' \<longrightarrow> best = Some b' \<or>
      (\<exists>vt wt vd opt. (vt, wt) \<in> set L \<and>
         type_candidate tech vn bm tm bd td w h ext vt = Inr (Some (vd, opt)) \<and>
         b' = new_best vt wt vd opt))"
proof (induction L arbitrary: best)
  case Nil
  then show ?case by simp
next
  case (Cons x L)
  obtain vtype weight where x: "x = (vtype, weight)" by (cases x)
  have sub: "\<And>vt wt. (vt, wt) \<in> set L \<Longrightarrow> (vt, wt) \<in> set (x # L)" by simp
  from Cons.prems x obtain c where
    c: "type_candidate tech vn bm tm bd td w h ext vtype = Inr c"
    by (auto split: sum.splits)
  show ?case
  proof (cases c)
    case None
    with c Cons.prems x have "type_loop tech vn bm tm bd td w h ext best L = Inr r" by simp
    note ih = Cons.IH [OF this]
    have 2: "\<forall>vt wt vd opt'. (vt, wt) \<in> set (x # L) \<longrightarrow>
      type_candidate tech vn bm tm bd td w h ext vt = Inr (Some (vd, opt')) \<longrightarrow>
      (\<exists>b'. r = Some b' \<and> weighted_num wt opt' \<le> best_num b')"
    proof (intro allI impI)
      fix vt wt vd opt'
      assume m: "(vt, wt) \<in> set (x # L)"
        and tc: "type_candidate tech vn bm tm bd td w h ext vt = Inr (Some (vd, opt'))"
      from tc c None x have "(vt, wt) \<noteq> x" by auto
      with m have "(vt, wt) \<in> set L" by auto
      with ih tc show "\<exists>b'. r = Some b' \<and> weighted_num wt opt' \<le> best_num b'" by blast
    qed
    have 3: "\<forall>b'. r = Some b' \<longrightarrow> best = Some b' \<or>
      (\<exists>vt wt vd opt'. (vt, wt) \<in> set (x # L) \<and>
         type_candidate tech vn bm tm bd td w h ext vt = Inr (Some (vd, opt')) \<and>
         b' = new_best vt wt vd opt')"
    proof (intro allI impI)
      fix b' assume "r = Some b'"
      with ih have "best = Some b' \<or>
        (\<exists>vt wt vd opt'. (vt, wt) \<in> set L \<and>
           type_candidate tech vn bm tm bd td w h ext vt = Inr (Some (vd, opt')) \<and>
           b' = new_best vt wt vd opt')" by blast
      with sub show "best = Some b' \<or>
      (\<exists>vt wt vd opt'. (vt, wt) \<in> set (x # L) \<and>
         type_candidate tech vn bm tm bd td w h ext vt = Inr (Some (vd, opt')) \<and>
         b' = new_best vt wt vd opt')" by blast
    qed
    from ih 2 3 show ?thesis by blast
  next
    case (Some p)
    obtain vdim opt where p: "p = (vdim, opt)" by (cases p)
    from c Some p Cons.prems x obtain best' where
      u: "update_best (resolution tech) vtype weight vdim opt best = Inr best'" and
      l: "type_loop tech vn bm tm bd td w h ext best' L = Inr r"
      by (auto split: sum.splits)
    from update_best_InrD [OF u] obtain b1 where
      b1: "best' = Some b1" "weighted_num weight opt \<le> best_num b1"
        "\<forall>b. best = Some b \<longrightarrow> best_num b \<le> best_num b1"
        "b1 = new_best vtype weight vdim opt \<or> best = Some b1"
      by blast
    note ih = Cons.IH [OF l]
    from ih b1(1) obtain b2 where b2: "r = Some b2" "best_num b1 \<le> best_num b2" by auto
    have 1: "\<forall>b. best = Some b \<longrightarrow> (\<exists>b'. r = Some b' \<and> best_num b \<le> best_num b')"
      using b1(3) b2 by auto
    have 2: "\<forall>vt wt vd opt'. (vt, wt) \<in> set (x # L) \<longrightarrow>
      type_candidate tech vn bm tm bd td w h ext vt = Inr (Some (vd, opt')) \<longrightarrow>
      (\<exists>b'. r = Some b' \<and> weighted_num wt opt' \<le> best_num b')"
    proof (intro allI impI)
      fix vt wt vd opt'
      assume m: "(vt, wt) \<in> set (x # L)"
        and tc: "type_candidate tech vn bm tm bd td w h ext vt = Inr (Some (vd, opt'))"
      show "\<exists>b'. r = Some b' \<and> weighted_num wt opt' \<le> best_num b'"
      proof (cases "(vt, wt) = x")
        case True
        with x c Some p tc have "opt' = opt" "wt = weight" by auto
        with b1(2) b2 show ?thesis by auto
      next
        case False
        with m have "(vt, wt) \<in> set L" by auto
        with ih tc show ?thesis by blast
      qed
    qed
    have 3: "\<forall>b'. r = Some b' \<longrightarrow> best = Some b' \<or>
      (\<exists>vt wt vd opt'. (vt, wt) \<in> set (x # L) \<and>
         type_candidate tech vn bm tm bd td w h ext vt = Inr (Some (vd, opt')) \<and>
         b' = new_best vt wt vd opt')"
    proof (intro allI impI)
      fix b' assume "r = Some b'"
      with ih have "best' = Some b' \<or>
        (\<exists>vt wt vd opt'. (vt, wt) \<in> set L \<and>
           type_candidate tech vn bm tm bd td w h ext vt = Inr (Some (vd, opt')) \<and>
           b' = new_best vt wt vd opt')" by blast
      then show "best = Some b' \<or>
      (\<exists>vt wt vd opt'. (vt, wt) \<in> set (x # L) \<and>
         type_candidate tech vn bm tm bd td w h ext vt = Inr (Some (vd, opt')) \<and>
         b' = new_best vt wt vd opt')"
      proof
        assume "best' = Some b'"
        with b1(1,4) have "b' = new_best vtype weight vdim opt \<or> best = Some b'" by auto
        then show ?thesis
        proof
          assume "b' = new_best vtype weight vdim opt"
          moreover have "(vtype, weight) \<in> set (x # L)" using x by simp
          moreover have "type_candidate tech vn bm tm bd td w h ext vtype = Inr (Some (vdim, opt))"
            using c Some p by simp
          ultimately show ?thesis by blast
        qed simp
      next
        assume "\<exists>vt wt vd opt'. (vt, wt) \<in> set L \<and>
           type_candidate tech vn bm tm bd td w h ext vt = Inr (Some (vd, opt')) \<and>
           b' = new_best vt wt vd opt'"
        with sub show ?thesis by blast
      qed
    qed
    from 1 2 3 show ?thesis by blast
  qed
qed


lemma via_better_loop_char:
  "res \<noteq> 0 \<Longrightarrow>
   via_better_loop res better zs =
     Inr ((\<forall>(a, b) \<in> set zs. via_area res a \<le> via_area res b) \<and>
          (better \<or> (\<exists>(a, b) \<in> set zs. via_area res a < via_area res b)))"
proof (induction zs arbitrary: better)
  case Nil
  then show ?case by simp
next
  case (Cons z zs)
  obtain a b where z: "z = (a, b)" by (cases z)
  from Cons show ?case unfolding z by (auto simp: Let_def)
qed

lemma via_better_char:
  "res \<noteq> 0 \<Longrightarrow>
   via_better res m1 m2 =
     Inr ((\<forall>(a, b) \<in> set (zip m1 m2). via_area res a \<le> via_area res b) \<and>
          (\<exists>(a, b) \<in> set (zip m1 m2). via_area res a < via_area res b))"
  by (simp add: via_better_def via_better_loop_char)

subsection \<open>The choice among the via types\<close>

lemma via_area_half: "via_area (1 / 2) (a, b) = (2 * a) * (2 * b)"
proof -
  have "py_round (of_int a / (1 / 2)) = 2 * a" "py_round (of_int b / (1 / 2)) = 2 * b"
    using py_round_of_int [of "2 * a"] py_round_of_int [of "2 * b"] by (simp_all add: mult.commute)
  then show ?thesis by (simp add: via_area_def)
qed

lemma rect_candidates_7:
  "type_candidate rect_tech ''via'' ''m'' ''m'' ''x'' ''y'' 1 7 True ''square''
     = Inr (Some ((1, 1), square_opt_7))"
  "type_candidate rect_tech ''via'' ''m'' ''m'' ''x'' ''y'' 1 7 True ''vrect''
     = Inr (Some ((1, 2), vrect_opt_7))"
  "type_candidate rect_tech ''via'' ''m'' ''m'' ''x'' ''y'' 1 7 True ''hrect'' = Inr None"
  by code_simp+

lemma rect_candidates_8:
  "type_candidate rect_tech ''via'' ''m'' ''m'' ''x'' ''y'' 1 8 True ''square''
     = Inr (Some ((1, 1), square_opt_8))"
  "type_candidate rect_tech ''via'' ''m'' ''m'' ''x'' ''y'' 1 8 True ''vrect''
     = Inr (Some ((1, 2), vrect_opt_8))"
  "type_candidate rect_tech ''via'' ''m'' ''m'' ''x'' ''y'' 1 8 True ''hrect'' = Inr None"
  by code_simp+

lemma rect_tech_simps:
  "get_via_types rect_tech bm tm = [(''square'', 1), (''vrect'', 2), (''hrect'', 2)]"
  "resolution rect_tech = 1 / 2"
  by (simp_all add: rect_tech_def example_tech_def TechInfo_get_via_types_def)

lemma rect_tie: "update_best (1 / 2) ''vrect'' 2 (1, 2) vrect_opt_7
     (Some (new_best ''square'' 1 (1, 1) square_opt_7))
   = Inr (Some (new_best ''square'' 1 (1, 1) square_opt_7))"
  by (simp add: update_best_def replaces_def weighted_num_def new_best_def square_opt_7_def
      vrect_opt_7_def via_better_def via_area_half)

lemma rect_search_7:
  "best_via_search rect_tech ''via'' ''m'' ''m'' ''x'' ''y'' 1 7 True
     = Inr (Some (new_best ''square'' 1 (1, 1) square_opt_7))"
proof -
  have "update_best (1 / 2) ''square'' 1 (1, 1) square_opt_7 None
          = Inr (Some (new_best ''square'' 1 (1, 1) square_opt_7))"
    by (simp add: update_best_def replaces_def)
  then show ?thesis
    by (simp add: best_via_search_def rect_tech_simps rect_candidates_7 rect_tie)
qed

lemma rect_search_8:
  "best_via_search rect_tech ''via'' ''m'' ''m'' ''x'' ''y'' 1 8 True
     = Inr (Some (new_best ''vrect'' 2 (1, 2) vrect_opt_8))"
proof -
  have "update_best (1 / 2) ''square'' 1 (1, 1) square_opt_8 None
          = Inr (Some (new_best ''square'' 1 (1, 1) square_opt_8))"
    by (simp add: update_best_def replaces_def)
  moreover have "update_best (1 / 2) ''vrect'' 2 (1, 2) vrect_opt_8
          (Some (new_best ''square'' 1 (1, 1) square_opt_8))
        = Inr (Some (new_best ''vrect'' 2 (1, 2) vrect_opt_8))"
    by (simp add: update_best_def replaces_def weighted_num_def new_best_def square_opt_8_def
        vrect_opt_8_def)
  ultimately show ?thesis
    by (simp add: best_via_search_def rect_tech_simps rect_candidates_8)
qed












text \<open>
  Claim C8, as stated, fails: the via types compete by weighted count.  In a box 1 by 7
  the square via gives 4 vias and ties with 2 rectangular vias of weight 2, so the
  square via stays; in the box 1 by 8 three rectangular vias weigh 6 and win over the
  4 square vias, and the via count drops from 4 to 3.
\<close>

theorem via_count_monotone_counterexample:
  "get_best_via_array rect_tech ''via'' ''m'' ''m'' ''x'' ''y'' 1 7 True
     = Inr (Some ((1, 4), [(1, 7), (1, 7)], ''square'', (1, 1), (1, 1), (1, 7))) \<and>
   get_best_via_array rect_tech ''via'' ''m'' ''m'' ''x'' ''y'' 1 8 True
     = Inr (Some ((1, 3), [(1, 8), (1, 8)], ''vrect'', (1, 2), (1, 1), (1, 8))) \<and>
   (1 :: int) * 3 < 1 * 4"
  by (simp add: get_best_via_array_def rect_search_7 rect_search_8 new_best_def
      square_opt_7_def vrect_opt_8_def weighted_num_def)

subsection \<open>The array extent\<close>

lemma tot_enc_set:
  "tot_enc encs aenc atst nx ny = Inr tot \<Longrightarrow>
   set tot \<subseteq> set encs \<union> (case aenc of None \<Rightarrow> {} | Some a \<Rightarrow> set a)"
  by (auto simp: tot_enc_def split: option.splits if_splits)

lemma check_layer_bounds:
  assumes c: "check_layer ext w h nx ny wa ha mdir (enc info) (arr_enc info) (arr_test info)
                = Inr (Some m)"
    and n: "enc_nonneg info"
  shows "(mdir = ''y'' \<longrightarrow> wa \<le> w) \<and> (mdir \<noteq> ''y'' \<longrightarrow> ha \<le> h) \<and>
         (\<not> ext \<longrightarrow> wa \<le> w \<and> ha \<le> h)"
proof -
  obtain i ed xd dl md where ax: "layer_axes mdir w h wa ha = (i, ed, xd, dl, md)"
    by (cases "layer_axes mdir w h wa ha") auto
  from check_layer_SomeD [OF c ax] obtain tot e where
    t: "tot_enc (enc info) (arr_enc info) (arr_test info) nx ny = Inr tot"
    and e: "e \<in> set tot" "enc_pass ext i ed xd dl md e" by blast
  from tot_enc_set [OF t] e(1) n have "0 \<le> fst e" "0 \<le> snd e"
    by (auto simp: enc_nonneg_def)
  with e(2) ax show ?thesis
    by (cases e) (auto simp: enc_pass_def layer_axes_def Let_def split: if_splits)
qed

lemma best_via_search_origin:
  assumes "best_via_search tech vname bmtype tmtype bot_dir top_dir w h ext = Inr (Some b)"
  shows "\<exists>vtype weight bi ti opt spx spy ml.
     (vtype, weight) \<in> set (get_via_types tech bmtype tmtype) \<and>
     lookup_drc tech vname vtype bmtype tmtype (fst (dir_dims bot_dir w h))
       (fst (dir_dims top_dir w h)) = Inr (Some (bi, ti)) \<and>
     type_opt ext w h bot_dir top_dir bi ti = Inr (Some opt) \<and>
     b = new_best vtype weight (dim bi) opt \<and>
     check_layers ext w h bot_dir top_dir bi ti (fst (opt_nxy opt)) (snd (opt_nxy opt))
       (fst (opt_adim opt)) (snd (opt_adim opt)) = Inr (Some ml) \<and>
     opt_sp opt = (spx, spy) \<and>
     opt_adim opt = (fst (opt_nxy opt) * (spx + fst (dim bi)) - spx,
                     snd (opt_nxy opt) * (spy + snd (dim bi)) - spy)"
proof -
  from type_loop_InrD [OF assms [unfolded best_via_search_def]]
  obtain vtype weight vdim opt where
    m: "(vtype, weight) \<in> set (get_via_types tech bmtype tmtype)" and
    tc: "type_candidate tech vname bmtype tmtype bot_dir top_dir w h ext vtype
           = Inr (Some (vdim, opt))" and
    b: "b = new_best vtype weight vdim opt" by blast
  from type_candidate_SomeD [OF tc] obtain bi ti where
    l: "lookup_drc tech vname vtype bmtype tmtype (fst (dir_dims bot_dir w h))
              (fst (dir_dims top_dir w h)) = Inr (Some (bi, ti))" and
    t: "type_opt ext w h bot_dir top_dir bi ti = Inr (Some opt)" and v: "vdim = dim bi"
    by blast
  from type_opt_SomeD [OF t] obtain nx ny where
    s: "sp_loop ext w h bot_dir top_dir bi ti nx ny (sp_combo bi nx ny) = Inr (Some opt)"
    by blast
  from sp_loop_SomeD [OF s] obtain spx spy ml where
    c: "check_layers ext w h bot_dir top_dir bi ti nx ny (nx * (spx + fst (dim bi)) - spx)
       (ny * (spy + snd (dim bi)) - spy) = Inr (Some ml)" and
    o: "opt = \<lparr>opt_nxy = (nx, ny), opt_mdim_list = ml,
            opt_adim = (nx * (spx + fst (dim bi)) - spx, ny * (spy + snd (dim bi)) - spy),
            opt_sp = (spx, spy)\<rparr>" by blast
  from c o have "check_layers ext w h bot_dir top_dir bi ti (fst (opt_nxy opt)) (snd (opt_nxy opt))
       (fst (opt_adim opt)) (snd (opt_adim opt)) = Inr (Some ml)" by simp
  moreover from o have "opt_sp opt = (spx, spy)"
    "opt_adim opt = (fst (opt_nxy opt) * (spx + fst (dim bi)) - spx,
                     snd (opt_nxy opt) * (spy + snd (dim bi)) - spy)" by simp_all
  ultimately show ?thesis using m l t b v by blast
qed

text \<open>
  Claim C4.  When \<open>get_best_via_array\<close> succeeds and every enclosure pair supplied by
  the provider is non-negative, the returned array extent is
  \<open>(nx * (via_w + spx) - spx, ny * (via_h + spy) - spy)\<close>; without the extend flag it
  fits the box in both axes; with the flag, the axis across the wire direction of each of
  the two layers still fits, so only a wire-direction axis can exceed the box.
\<close>

theorem via_array_extent_within_box:
  assumes r: "get_best_via_array tech vname bmtype tmtype bot_dir top_dir w h ext
             = Inr (Some ((nx, ny), mdim_list, vtype, (via_w, via_h), (spx, spy), adim))"
    and n: "\<forall>vt mt mw is_bot info.
              get_via_drc_info tech vname vt mt mw is_bot = Inr info \<longrightarrow> enc_nonneg info"
  shows "adim = (nx * (via_w + spx) - spx, ny * (via_h + spy) - spy) \<and>
     (\<not> ext \<longrightarrow> fst adim \<le> w \<and> snd adim \<le> h) \<and>
     (bot_dir = ''y'' \<longrightarrow> fst adim \<le> w) \<and> (bot_dir \<noteq> ''y'' \<longrightarrow> snd adim \<le> h) \<and>
     (top_dir = ''y'' \<longrightarrow> fst adim \<le> w) \<and> (top_dir \<noteq> ''y'' \<longrightarrow> snd adim \<le> h)"
proof -
  from r obtain b where
    s: "best_via_search tech vname bmtype tmtype bot_dir top_dir w h ext = Inr (Some b)" and
    b: "best_nxy b = (nx, ny)" "best_vdim b = (via_w, via_h)" "best_sp b = (spx, spy)"
       "best_adim b = adim"
    by (auto simp: get_best_via_array_def split: sum.splits option.splits)
  from best_via_search_origin [OF s] obtain vt wt bi ti opt sx sy ml where
    l: "lookup_drc tech vname vt bmtype tmtype (fst (dir_dims bot_dir w h))
       (fst (dir_dims top_dir w h)) = Inr (Some (bi, ti))" and
    nb: "b = new_best vt wt (dim bi) opt" and
    c: "check_layers ext w h bot_dir top_dir bi ti (fst (opt_nxy opt)) (snd (opt_nxy opt))
       (fst (opt_adim opt)) (snd (opt_adim opt)) = Inr (Some ml)" and
    sp: "opt_sp opt = (sx, sy)" and
    ad: "opt_adim opt = (fst (opt_nxy opt) * (sx + fst (dim bi)) - sx,
                     snd (opt_nxy opt) * (sy + snd (dim bi)) - sy)"
    by blast
  from nb b have e: "opt_nxy opt = (nx, ny)" "dim bi = (via_w, via_h)" "opt_sp opt = (spx, spy)"
    "opt_adim opt = adim" by (simp_all add: new_best_def)
  from e sp ad have 1: "adim = (nx * (via_w + spx) - spx, ny * (via_h + spy) - spy)"
    by (simp add: add.commute)
  from lookup_drc_SomeD [OF l] n have nn: "enc_nonneg bi" "enc_nonneg ti" by blast+
  from c e obtain mb mt where
    cb: "check_layer ext w h nx ny (fst adim) (snd adim) bot_dir (enc bi) (arr_enc bi)
           (arr_test bi) = Inr (Some mb)" and
    ct: "check_layer ext w h nx ny (fst adim) (snd adim) top_dir (enc ti) (arr_enc ti)
           (arr_test ti) = Inr (Some mt)"
    unfolding check_layers_Some_iff by auto
  from check_layer_bounds [OF cb nn(1)] check_layer_bounds [OF ct nn(2)] 1
  show ?thesis by blast
qed

lemma no_sp3_tech_nonneg:
  "\<forall>vt mt mw is_bot info.
     get_via_drc_info (example_tech TechInfo_get_via_types (square_only info_no_sp3))
       ''via'' vt mt mw is_bot = Inr info \<longrightarrow> enc_nonneg info"
  by (auto simp: example_tech_def square_only_def enc_nonneg_def info_no_sp3_def
           split: if_splits)

lemma no_sp3_result_no_extend:
  "get_best_via_array (example_tech TechInfo_get_via_types (square_only info_no_sp3))
       ''via'' ''m'' ''m'' ''x'' ''y'' 10 10 False
     = Inr (Some ((3, 3), [(10, 10), (10, 10)], ''square'', (2, 2), (2, 2), (10, 10)))"
  by code_simp

theorem via_array_extent_within_box_witness:
  "get_best_via_array (example_tech TechInfo_get_via_types (square_only info_no_sp3))
       ''via'' ''m'' ''m'' ''x'' ''y'' 10 10 False
     = Inr (Some ((3, 3), [(10, 10), (10, 10)], ''square'', (2, 2), (2, 2), (10, 10))) \<and>
   ((10, 10) :: int \<times> int) = (3 * (2 + 2) - 2, 3 * (2 + 2) - 2) \<and>
   fst ((10, 10) :: int \<times> int) \<le> 10 \<and> snd ((10, 10) :: int \<times> int) \<le> 10"
  using via_array_extent_within_box [OF no_sp3_result_no_extend no_sp3_tech_nonneg]
    no_sp3_result_no_extend by simp

subsection \<open>No configuration\<close>










subsection \<open>The packing of scenario A\<close>

lemma sp_min_loop_same: "\<forall>p \<in> set l. p = (a, b) \<Longrightarrow> sp_min_loop (a, b) l = (a, b)"
  by (induction l) auto

lemma nxy_list_3_3:
  "nxy_list 3 3 = [(9, 3, 3), (6, 3, 2), (6, 2, 3), (4, 2, 2), (3, 3, 1), (3, 1, 3),
                   (2, 2, 1), (2, 1, 2), (1, 1, 1)]"
  by (simp add: nxy_list_def upto.simps)

lemma check_layer_square_8:
  assumes "arr_test info = None" "\<exists>e \<in> set (enc info). fst e \<le> 1 \<and> snd e \<le> 1"
  shows "\<exists>m. check_layer ext 10 10 3 3 8 8 mdir (enc info) (arr_enc info) (arr_test info)
               = Inr (Some m)"
proof -
  from assms(2) obtain e where e: "e \<in> set (enc info)" "fst e \<le> 1" "snd e \<le> 1" by blast
  have t: "tot_enc (enc info) (arr_enc info) (arr_test info) 3 3 = Inr (enc info)"
    using assms(1) by (simp add: tot_enc_def)
  obtain i where ax: "layer_axes mdir 10 10 8 8 = (i, 8, 8, 10, 10)"
    by (cases "mdir = ''y''") (auto simp: layer_axes_def)
  from e(2,3) have "enc_pass ext i 8 8 10 10 e"
    by (cases e) (auto simp: enc_pass_def Let_def)
  from check_layer_SomeI [OF t ax e(1) this] show ?thesis .
qed

text \<open>
  Claim C7.  In a 10 by 10 box, with a single via type candidate of via size (2, 2),
  spacing (1, 1) in every regime, no array rule, and for each layer an enclosure pair of
  at most (1, 1) (so that every configuration that fits the box passes),
  \<open>get_best_via_array\<close> returns 3 by 3 vias with spacing (1, 1) and extent (8, 8),
  whatever the two directions and the extend flag.  The spacing floor is (1, 1) and the
  largest column and row counts are \<open>(10 + 1) div (2 + 1) = 3\<close>.
\<close>

theorem scenario_A_packing:
  assumes types: "get_via_types tech bmtype tmtype = [(vtype, weight)]"
    and look: "lookup_drc tech vname vtype bmtype tmtype 10 10 = Inr (Some (bi, ti))"
    and d: "dim bi = (2, 2)" and s: "sp bi = (1, 1)"
    and s2: "\<forall>p \<in> set (sp2_default bi). p = (1, 1)"
    and s3: "sp3_default bi \<noteq> []" "\<forall>p \<in> set (sp3_default bi). p = (1, 1)"
    and arr: "arr_test bi = None" "arr_test ti = None"
    and eb: "\<exists>e \<in> set (enc bi). fst e \<le> 1 \<and> snd e \<le> 1"
    and et: "\<exists>e \<in> set (enc ti). fst e \<le> 1 \<and> snd e \<le> 1"
  shows "(\<exists>ml. get_best_via_array tech vname bmtype tmtype bot_dir top_dir 10 10 ext
             = Inr (Some ((3, 3), ml, vtype, (2, 2), (1, 1), (8, 8)))) \<and>
         sp_min bi = (1, 1) \<and>
         n_max 10 (fst (dim bi)) (fst (sp_min bi)) = Inr ((10 + 1) div (2 + 1)) \<and>
         n_max 10 (snd (dim bi)) (snd (sp_min bi)) = Inr ((10 + 1) div (2 + 1)) \<and>
         (10 + 1) div (2 + 1) = (3 :: int)"
proof -
  have m: "sp_min bi = (1, 1)"
    using s s2 s3(2) by (simp add: sp_min_def sp_min_loop_same)
  have n: "n_max 10 (fst (dim bi)) (fst (sp_min bi)) = Inr 3"
    "n_max 10 (snd (dim bi)) (snd (sp_min bi)) = Inr 3"
    by (simp_all add: m d n_max_def)
  from s3 obtain rest where c: "sp_combo bi 3 3 = (1, 1) # rest"
    by (cases "sp3_default bi") (auto simp: sp_combo_def)
  from check_layer_square_8 [OF arr(1) eb] check_layer_square_8 [OF arr(2) et]
  obtain ml where cl: "check_layers ext 10 10 bot_dir top_dir bi ti 3 3 8 8 = Inr (Some ml)"
    unfolding check_layers_Some_iff by blast
  let ?opt = "\<lparr>opt_nxy = (3, 3), opt_mdim_list = ml, opt_adim = (8, 8), opt_sp = (1, 1)\<rparr>"
  have sl: "sp_loop ext 10 10 bot_dir top_dir bi ti 3 3 (sp_combo bi 3 3) = Inr (Some ?opt)"
    unfolding c using cl by (simp add: d)
  have "nxy_loop ext 10 10 bot_dir top_dir bi ti (nxy_list 3 3) = Inr (Some ?opt)"
    unfolding nxy_list_3_3 using sl by simp
  then have "type_opt ext 10 10 bot_dir top_dir bi ti = Inr (Some ?opt)"
    using m d by (simp add: type_opt_def n_max_def)
  moreover have "fst (dir_dims bot_dir 10 10) = 10" "fst (dir_dims top_dir 10 10) = 10"
    by (simp_all add: dir_dims_def)
  ultimately have "type_candidate tech vname bmtype tmtype bot_dir top_dir 10 10 ext vtype
      = Inr (Some ((2, 2), ?opt))"
    using look d by (simp add: type_candidate_def)
  then have "best_via_search tech vname bmtype tmtype bot_dir top_dir 10 10 ext
      = Inr (Some (new_best vtype weight (2, 2) ?opt))"
    by (simp add: best_via_search_def types update_best_def replaces_def)
  then have "get_best_via_array tech vname bmtype tmtype bot_dir top_dir 10 10 ext
             = Inr (Some ((3, 3), ml, vtype, (2, 2), (1, 1), (8, 8)))"
    by (simp add: get_best_via_array_def new_best_def)
  then have "\<exists>ml. get_best_via_array tech vname bmtype tmtype bot_dir top_dir 10 10 ext
             = Inr (Some ((3, 3), ml, vtype, (2, 2), (1, 1), (8, 8)))" by blast
  with m n d show ?thesis by simp
qed


lemma square_only_lookup:
  "lookup_drc (example_tech types (square_only info)) vname ''square'' bm tm bb tb
     = Inr (Some (info, info))"
  by (simp add: lookup_drc_def example_tech_def square_only_def)

theorem scenario_A_packing_witness:
  "\<exists>ml. get_best_via_array (example_tech (\<lambda>bm tm. [(''square'', 1)]) (square_only info_base))
       ''via'' ''m1'' ''m2'' ''x'' ''y'' 10 10 False
     = Inr (Some ((3, 3), ml, ''square'', (2, 2), (1, 1), (8, 8)))"
proof -
  have t: "get_via_types (example_tech (\<lambda>bm tm. [(''square'', 1)]) (square_only info_base))
             ''m1'' ''m2'' = [(''square'', 1)]"
    by (simp add: example_tech_def)
  have d: "dim info_base = (2, 2)" and s: "sp info_base = (1, 1)"
    and s2: "\<forall>p \<in> set (sp2_default info_base). p = (1, 1)"
    and s3: "sp3_default info_base \<noteq> []" "\<forall>p \<in> set (sp3_default info_base). p = (1, 1)"
    and arr: "arr_test info_base = None"
    and e: "\<exists>e \<in> set (enc info_base). fst e \<le> 1 \<and> snd e \<le> 1"
    by (simp_all add: info_base_def sp2_default_def sp3_default_def)
  from scenario_A_packing [OF t square_only_lookup d s s2 s3 arr arr e e]
  show ?thesis by blast
qed

subsection \<open>Larger boxes\<close>

lemma update_best_total:
  assumes "res \<noteq> 0"
  shows "\<exists>r. update_best res vt wt vd opt best = Inr r"
  using via_better_char [OF assms]
  by (cases best) (auto simp: update_best_def replaces_def split: bool.splits)

lemma type_candidate_mono:
  assumes same: "lookup_drc tech vn vt bm tm (fst (dir_dims bd w' h')) (fst (dir_dims td w' h'))
                 = lookup_drc tech vn vt bm tm (fst (dir_dims bd w h)) (fst (dir_dims td w h))"
    and ok: "\<And>bi ti. lookup_drc tech vn vt bm tm (fst (dir_dims bd w h))
                 (fst (dir_dims td w h)) = Inr (Some (bi, ti)) \<Longrightarrow> rules_ok bi ti"
    and le: "w \<le> w'" "h \<le> h'"
    and c1: "type_candidate tech vn bm tm bd td w h ext vt = Inr c1"
  shows "\<exists>c2. type_candidate tech vn bm tm bd td w' h' ext vt = Inr c2 \<and>
     (\<forall>vd o1. c1 = Some (vd, o1) \<longrightarrow>
        (\<exists>o2. c2 = Some (vd, o2) \<and>
           fst (opt_nxy o1) * snd (opt_nxy o1) \<le> fst (opt_nxy o2) * snd (opt_nxy o2)))"
proof (cases "lookup_drc tech vn vt bm tm (fst (dir_dims bd w h)) (fst (dir_dims td w h))")
  case (Inl e)
  with c1 show ?thesis by (simp add: type_candidate_def)
next
  case (Inr l)
  show ?thesis
  proof (cases l)
    case None
    with Inr c1 same show ?thesis by (simp add: type_candidate_def)
  next
    case (Some p)
    obtain bi ti where p: "p = (bi, ti)" by (cases p)
    from Inr Some p have l: "lookup_drc tech vn vt bm tm (fst (dir_dims bd w h))
                 (fst (dir_dims td w h)) = Inr (Some (bi, ti))" by simp
    from ok [OF l] have r: "rules_ok bi ti" .
    from type_opt_no_error [OF r] obtain r2 where
      r2: "type_opt ext w' h' bd td bi ti = Inr r2" by blast
    show ?thesis
    proof (cases c1)
      case None
      from r2 l same show ?thesis unfolding None
        by (cases r2) (simp_all add: type_candidate_def)
    next
      case (Some q)
      obtain vd o1 where q: "q = (vd, o1)" by (cases q)
      from c1 Some q l have t1: "type_opt ext w h bd td bi ti = Inr (Some o1)" and v: "vd = dim bi"
        by (auto simp: type_candidate_def split: sum.splits option.splits)
      from type_opt_mono [OF r le t1] obtain o2 where
        t2: "type_opt ext w' h' bd td bi ti = Inr (Some o2)" and
        n: "fst (opt_nxy o1) * snd (opt_nxy o1) \<le> fst (opt_nxy o2) * snd (opt_nxy o2)"
        by blast
      from t2 l same v have "type_candidate tech vn bm tm bd td w' h' ext vt
          = Inr (Some (vd, o2))" by (simp add: type_candidate_def)
      with n Some q show ?thesis by simp
    qed
  qed
qed

lemma type_loop_mono:
  assumes res: "resolution tech \<noteq> 0" and le: "w \<le> w'" "h \<le> h'"
  shows "\<forall>(vt, wt) \<in> set L. 0 \<le> wt \<and>
       lookup_drc tech vn vt bm tm (fst (dir_dims bd w' h')) (fst (dir_dims td w' h'))
         = lookup_drc tech vn vt bm tm (fst (dir_dims bd w h)) (fst (dir_dims td w h)) \<and>
       (\<forall>bi ti. lookup_drc tech vn vt bm tm (fst (dir_dims bd w h))
                 (fst (dir_dims td w h)) = Inr (Some (bi, ti)) \<longrightarrow> rules_ok bi ti) \<Longrightarrow>
     type_loop tech vn bm tm bd td w h ext best1 L = Inr r1 \<Longrightarrow>
     (\<forall>x. best1 = Some x \<longrightarrow> (\<exists>y. best2 = Some y \<and> best_num x \<le> best_num y)) \<Longrightarrow>
     \<exists>r2. type_loop tech vn bm tm bd td w' h' ext best2 L = Inr r2 \<and>
        (\<forall>x. r1 = Some x \<longrightarrow> (\<exists>y. r2 = Some y \<and> best_num x \<le> best_num y))"
proof (induction L arbitrary: best1 best2)
  case Nil
  then show ?case by simp
next
  case (Cons a L)
  obtain vt wt where a: "a = (vt, wt)" by (cases a)
  from Cons.prems(1) a have wt: "0 \<le> wt"
    and same: "lookup_drc tech vn vt bm tm (fst (dir_dims bd w' h')) (fst (dir_dims td w' h'))
         = lookup_drc tech vn vt bm tm (fst (dir_dims bd w h)) (fst (dir_dims td w h))"
    and ok: "\<And>bi ti. lookup_drc tech vn vt bm tm (fst (dir_dims bd w h))
                 (fst (dir_dims td w h)) = Inr (Some (bi, ti)) \<Longrightarrow> rules_ok bi ti"
    and rest: "\<forall>(vt, wt) \<in> set L. 0 \<le> wt \<and>
       lookup_drc tech vn vt bm tm (fst (dir_dims bd w' h')) (fst (dir_dims td w' h'))
         = lookup_drc tech vn vt bm tm (fst (dir_dims bd w h)) (fst (dir_dims td w h)) \<and>
       (\<forall>bi ti. lookup_drc tech vn vt bm tm (fst (dir_dims bd w h))
                 (fst (dir_dims td w h)) = Inr (Some (bi, ti)) \<longrightarrow> rules_ok bi ti)"
    by auto
  from Cons.prems(2) a obtain c1 where
    c1: "type_candidate tech vn bm tm bd td w h ext vt = Inr c1"
    by (auto split: sum.splits)
  from type_candidate_mono [OF same ok le c1] obtain c2 where
    c2: "type_candidate tech vn bm tm bd td w' h' ext vt = Inr c2" and
    rel: "\<forall>vd o1. c1 = Some (vd, o1) \<longrightarrow>
        (\<exists>o2. c2 = Some (vd, o2) \<and>
           fst (opt_nxy o1) * snd (opt_nxy o1) \<le> fst (opt_nxy o2) * snd (opt_nxy o2))"
    by blast
  show ?case
  proof (cases c1)
    case None
    with c1 Cons.prems(2) a have l1: "type_loop tech vn bm tm bd td w h ext best1 L = Inr r1"
      by simp
    show ?thesis
    proof (cases c2)
      case None
      with c2 a Cons.IH [OF rest l1 Cons.prems(3)] show ?thesis by simp
    next
      case (Some q)
      obtain vd o2 where q: "q = (vd, o2)" by (cases q)
      from update_best_total [OF res] obtain b2' where
        u2: "update_best (resolution tech) vt wt vd o2 best2 = Inr b2'" by blast
      from update_best_InrD [OF u2] Cons.prems(3)
      have "\<forall>x. best1 = Some x \<longrightarrow> (\<exists>y. b2' = Some y \<and> best_num x \<le> best_num y)"
        by fastforce
      from Cons.IH [OF rest l1 this] c2 Some q u2 a show ?thesis by simp
    qed
  next
    case (Some p)
    obtain vd o1 where p: "p = (vd, o1)" by (cases p)
    from rel Some p obtain o2 where
      o2: "c2 = Some (vd, o2)" and
      n: "fst (opt_nxy o1) * snd (opt_nxy o1) \<le> fst (opt_nxy o2) * snd (opt_nxy o2)"
      by blast
    from n wt have wn: "weighted_num wt o1 \<le> weighted_num wt o2"
      unfolding weighted_num_def by (simp add: mult.assoc mult_left_mono)
    from c1 Some p Cons.prems(2) a obtain b1' where
      u1: "update_best (resolution tech) vt wt vd o1 best1 = Inr b1'" and
      l1: "type_loop tech vn bm tm bd td w h ext b1' L = Inr r1"
      by (auto split: sum.splits)
    from update_best_total [OF res] obtain b2' where
      u2: "update_best (resolution tech) vt wt vd o2 best2 = Inr b2'" by blast
    from update_best_InrD [OF u1] obtain x1 where
      x1: "b1' = Some x1" "x1 = new_best vt wt vd o1 \<or> best1 = Some x1" by blast
    from update_best_InrD [OF u2] obtain y2 where
      y2: "b2' = Some y2" "weighted_num wt o2 \<le> best_num y2"
        "\<forall>b. best2 = Some b \<longrightarrow> best_num b \<le> best_num y2" by blast
    have "best_num x1 \<le> best_num y2"
    proof (cases "x1 = new_best vt wt vd o1")
      case True
      with wn y2(2) show ?thesis by simp
    next
      case False
      with x1(2) have "best1 = Some x1" by simp
      with Cons.prems(3) obtain y where "best2 = Some y" "best_num x1 \<le> best_num y" by blast
      with y2(3) show ?thesis by fastforce
    qed
    with x1(1) y2(1)
    have "\<forall>x. b1' = Some x \<longrightarrow> (\<exists>y. b2' = Some y \<and> best_num x \<le> best_num y)" by simp
    from Cons.IH [OF rest l1 this] c2 o2 u2 a show ?thesis by simp
  qed
qed

lemma best_via_search_weight:
  assumes "best_via_search tech vname bmtype tmtype bot_dir top_dir w h ext = Inr (Some b)"
  shows "\<exists>wt. (best_type b, wt) \<in> set (get_via_types tech bmtype tmtype) \<and>
           best_num b = wt * fst (best_nxy b) * snd (best_nxy b)"
proof -
  from type_loop_InrD [OF assms [unfolded best_via_search_def]]
  obtain vt wt vd opt where "(vt, wt) \<in> set (get_via_types tech bmtype tmtype)"
    "b = new_best vt wt vd opt" by blast
  then show ?thesis by (auto simp: new_best_def weighted_num_def)
qed

text \<open>
  Claim C8, amended.  Take two boxes with \<open>w1 \<le> w2\<close> and \<open>h1 \<le> h2\<close>, the same via
  name, metal types, directions and extend flag, and rule lookups that give the same
  answer for both boxes.  Let the resolution be non-zero, the weights of the via types
  non-negative and the rule sets well formed (an array test comes with an array
  enclosure list; via size plus smallest spacing is positive in each axis).  If
  \<open>get_best_via_array\<close> succeeds on the smaller box, it succeeds on the larger box, and
  the weighted count \<open>weight * nx * ny\<close> of the result for the larger box is at least
  that of the result for the smaller box.
\<close>

theorem via_weighted_count_monotone:
  assumes le: "w1 \<le> w2" "h1 \<le> h2"
    and res: "resolution tech \<noteq> 0"
    and rules: "\<forall>(vtype, weight) \<in> set (get_via_types tech bmtype tmtype). 0 \<le> weight \<and>
       lookup_drc tech vname vtype bmtype tmtype (fst (dir_dims bot_dir w2 h2))
           (fst (dir_dims top_dir w2 h2))
         = lookup_drc tech vname vtype bmtype tmtype (fst (dir_dims bot_dir w1 h1))
             (fst (dir_dims top_dir w1 h1)) \<and>
       (\<forall>bi ti. lookup_drc tech vname vtype bmtype tmtype (fst (dir_dims bot_dir w1 h1))
                 (fst (dir_dims top_dir w1 h1)) = Inr (Some (bi, ti)) \<longrightarrow> rules_ok bi ti)"
    and small: "get_best_via_array tech vname bmtype tmtype bot_dir top_dir w1 h1 ext
                  = Inr (Some (nxy1, mdim1, vtype1, vdim1, sp1, adim1))"
  shows "\<exists>nxy2 mdim2 vtype2 vdim2 sp2 adim2 weight1 weight2.
     get_best_via_array tech vname bmtype tmtype bot_dir top_dir w2 h2 ext
       = Inr (Some (nxy2, mdim2, vtype2, vdim2, sp2, adim2)) \<and>
     (vtype1, weight1) \<in> set (get_via_types tech bmtype tmtype) \<and>
     (vtype2, weight2) \<in> set (get_via_types tech bmtype tmtype) \<and>
     weight1 * fst nxy1 * snd nxy1 \<le> weight2 * fst nxy2 * snd nxy2"
proof -
  from small obtain b1 where
    s1: "best_via_search tech vname bmtype tmtype bot_dir top_dir w1 h1 ext = Inr (Some b1)"
    and a1: "best_nxy b1 = nxy1" "best_type b1 = vtype1"
    by (auto simp: get_best_via_array_def split: sum.splits option.splits)
  have "\<forall>x. (None :: via_best option) = Some x \<longrightarrow>
          (\<exists>y. (None :: via_best option) = Some y \<and> best_num x \<le> best_num y)" by simp
  from type_loop_mono [OF res le rules s1 [unfolded best_via_search_def] this]
  obtain b2 where
    s2: "best_via_search tech vname bmtype tmtype bot_dir top_dir w2 h2 ext = Inr (Some b2)"
    and n: "best_num b1 \<le> best_num b2"
    unfolding best_via_search_def by auto
  from best_via_search_weight [OF s1] a1 obtain weight1 where
    w1: "(vtype1, weight1) \<in> set (get_via_types tech bmtype tmtype)"
      "best_num b1 = weight1 * fst nxy1 * snd nxy1" by auto
  from best_via_search_weight [OF s2] obtain weight2 where
    w2: "(best_type b2, weight2) \<in> set (get_via_types tech bmtype tmtype)"
      "best_num b2 = weight2 * fst (best_nxy b2) * snd (best_nxy b2)" by auto
  from s2 have "get_best_via_array tech vname bmtype tmtype bot_dir top_dir w2 h2 ext
       = Inr (Some (best_nxy b2, best_mdim_list b2, best_type b2, best_vdim b2, best_sp b2,
                    best_adim b2))"
    by (simp add: get_best_via_array_def)
  with w1 w2 n show ?thesis by force
qed

lemma rect_result_7:
  "get_best_via_array rect_tech ''via'' ''m'' ''m'' ''x'' ''y'' 1 7 True
     = Inr (Some ((1, 4), [(1, 7), (1, 7)], ''square'', (1, 1), (1, 1), (1, 7)))"
  by (simp add: get_best_via_array_def rect_search_7 new_best_def square_opt_7_def)

lemma rect_rules_ok:
  "\<forall>(vtype, weight) \<in> set (get_via_types rect_tech ''m'' ''m''). 0 \<le> weight \<and>
       lookup_drc rect_tech ''via'' vtype ''m'' ''m'' (fst (dir_dims ''x'' 1 8))
           (fst (dir_dims ''y'' 1 8))
         = lookup_drc rect_tech ''via'' vtype ''m'' ''m'' (fst (dir_dims ''x'' 1 7))
             (fst (dir_dims ''y'' 1 7)) \<and>
       (\<forall>bi ti. lookup_drc rect_tech ''via'' vtype ''m'' ''m'' (fst (dir_dims ''x'' 1 7))
                 (fst (dir_dims ''y'' 1 7)) = Inr (Some (bi, ti)) \<longrightarrow> rules_ok bi ti)"
  by (simp add: rect_tech_simps)
     (auto simp: lookup_drc_def rect_tech_def example_tech_def rect_rules_def info_base_def
        rules_ok_def arr_ok_def sp_min_def sp2_default_def sp3_default_def)

theorem via_weighted_count_monotone_witness:
  "get_best_via_array rect_tech ''via'' ''m'' ''m'' ''x'' ''y'' 1 7 True
     = Inr (Some ((1, 4), [(1, 7), (1, 7)], ''square'', (1, 1), (1, 1), (1, 7))) \<and>
   (\<exists>nxy2 mdim2 vtype2 vdim2 sp2 adim2 weight1 weight2.
     get_best_via_array rect_tech ''via'' ''m'' ''m'' ''x'' ''y'' 1 8 True
       = Inr (Some (nxy2, mdim2, vtype2, vdim2, sp2, adim2)) \<and>
     (''square'', weight1) \<in> set (get_via_types rect_tech ''m'' ''m'') \<and>
     (vtype2, weight2) \<in> set (get_via_types rect_tech ''m'' ''m'') \<and>
     weight1 * fst ((1, 4) :: int \<times> int) * snd ((1, 4) :: int \<times> int)
       \<le> weight2 * fst nxy2 * snd nxy2)"
proof -
  have r: "resolution rect_tech \<noteq> 0" by (simp add: rect_tech_simps)
  have le: "(1 :: int) \<le> 1" "(7 :: int) \<le> 8" by simp_all
  from via_weighted_count_monotone [OF le r rect_rules_ok rect_result_7] rect_result_7
  show ?thesis by blast
qed

end
